theory Spec2Isabelle
  imports Complex_Main "HOL-Library.Sublist" "HOL-Library.Multiset"
begin

section \<open>Data model\<close>

text \<open>
  The station manager of \<^verbatim>\<open>StationManager.cpp\<close> keeps three things: the linked list of
  \<^verbatim>\<open>KitchenStation*\<close> it inherits from \<^verbatim>\<open>LinkedList<KitchenStation*>\<close>, the queue
  \<^verbatim>\<open>dish_queue_\<close> of \<^verbatim>\<open>Dish*\<close> and the vector \<^verbatim>\<open>backup_ingredients_\<close>. Stations and dishes
  are objects owned by the caller and reached through pointers, so the model has an explicit
  store for each: a pointer is an address, and the store maps an address to the object.
  The same address may occur twice in the list or in the queue, as the same pointer may in
  the program.

  The C++ \<^verbatim>\<open>int\<close> quantities are modelled as unbounded integers: signed overflow is
  undefined behaviour in C++, so the model describes the executions that are free of it.
  The price of an ingredient is a \<^verbatim>\<open>double\<close> that the code only copies; it is carried
  as a real number. Member names lose their trailing underscore (\<^verbatim>\<open>dish_queue_\<close> is
  \<open>dish_queue\<close>), since an Isabelle name cannot end with one. Of a dish the model keeps
  what the manager reads through \<^verbatim>\<open>getName()\<close> and \<^verbatim>\<open>getIngredients()\<close>; an ingredient has
  the four members the code constructs it from.
\<close>

type_synonym station_ptr = nat
type_synonym dish_ptr = nat

record Ingredient =
  name :: string
  quantity :: int
  required_quantity :: int
  price :: real

record Dish =
  dish_name :: string
  dish_ingredients :: "Ingredient list"

record KitchenStation =
  station_name :: string
  dishes :: "dish_ptr list"
  ingredients_stock :: "Ingredient list"

text \<open>
  What \<^verbatim>\<open>processAllDishes\<close> does that is visible from outside: a line written to
  \<^verbatim>\<open>std::cout\<close>, and a call of a station method or of the replenishment from the backup,
  recorded with its arguments and its result.
\<close>

datatype event =
    Print string
  | CanCompleteOrder_call station_ptr string bool
  | PrepareDish_call station_ptr string bool
  | Replenish_call string string int bool

record state =
  list_items :: "station_ptr list"
  dish_queue :: "dish_ptr list"
  backup_ingredients :: "Ingredient list"
  station_mem :: "station_ptr \<Rightarrow> KitchenStation"
  dish_mem :: "dish_ptr \<Rightarrow> Dish"
  trace :: "event list"

definition emit :: "event \<Rightarrow> state \<Rightarrow> state" where
  "emit e st = st\<lparr>trace := trace st @ [e]\<rparr>"

definition getName :: "state \<Rightarrow> station_ptr \<Rightarrow> string" where
  "getName st p = station_name (station_mem st p)"

definition dishName :: "state \<Rightarrow> dish_ptr \<Rightarrow> string" where
  "dishName st d = dish_name (dish_mem st d)"

section \<open>The collaborators\<close>

text \<open>
  Modelled from the spec: \<^verbatim>\<open>LinkedList::insert\<close> and \<^verbatim>\<open>LinkedList::remove\<close>
  (\<^verbatim>\<open>LinkedList.cpp\<close> is not among the sources). The registry is an ordered sequence
  addressed by zero-based position; \<^verbatim>\<open>insert\<close> at \<^verbatim>\<open>item_count_\<close> appends, \<^verbatim>\<open>insert\<close> at
  0 puts the entry in front, and both fail on a position outside the list.
\<close>

definition insert_entry :: "int \<Rightarrow> 'a \<Rightarrow> 'a list \<Rightarrow> bool \<times> 'a list" where
  "insert_entry position x xs =
     (if 0 \<le> position \<and> position \<le> int (length xs)
      then (True, take (nat position) xs @ x # drop (nat position) xs)
      else (False, xs))"

definition remove_entry :: "int \<Rightarrow> 'a list \<Rightarrow> bool \<times> 'a list" where
  "remove_entry position xs =
     (if 0 \<le> position \<and> position < int (length xs)
      then (True, take (nat position) xs @ drop (Suc (nat position)) xs)
      else (False, xs))"

text \<open>
  Modelled from the spec: \<^verbatim>\<open>KitchenStation::assignDishToStation\<close> (\<^verbatim>\<open>KitchenStation.cpp\<close>
  is not among the sources). The spec: "registers an item name as produceable by this
  station (duplicates permitted)".
\<close>

definition assignDishToStation :: "KitchenStation \<Rightarrow> dish_ptr \<Rightarrow> bool \<times> KitchenStation" where
  "assignDishToStation s d = (True, s\<lparr>dishes := dishes s @ [d]\<rparr>)"

text \<open>
  Modelled from the spec: \<^verbatim>\<open>KitchenStation::replenishStationIngredients\<close>
  (\<^verbatim>\<open>KitchenStation.cpp\<close> is not among the sources). The spec: "adds the given quantity
  to the named ingredient (create-if-absent)", with the add semantics "if an existing
  record shares the name, its quantity is incremented by the new record's quantity
  (price/other fields of the existing record are left untouched); otherwise the record is
  appended".
\<close>

fun add_ingredient :: "Ingredient list \<Rightarrow> Ingredient \<Rightarrow> Ingredient list" where
  "add_ingredient [] i = [i]"
| "add_ingredient (s # ss) i =
     (if name s = name i then s\<lparr>quantity := quantity s + quantity i\<rparr> # ss
      else s # add_ingredient ss i)"

definition replenishStationIngredients :: "KitchenStation \<Rightarrow> Ingredient \<Rightarrow> KitchenStation" where
  "replenishStationIngredients s i =
     s\<lparr>ingredients_stock := add_ingredient (ingredients_stock s) i\<rparr>"

text \<open>
  \<^verbatim>\<open>KitchenStation::canCompleteOrder\<close> and \<^verbatim>\<open>KitchenStation::prepareDish\<close> are not among
  the sources either, and the spec leaves them to the station. They are parameters of the
  model: any two functions of the station object (and of the dishes it points to) and the
  dish name; \<^verbatim>\<open>prepareDish\<close> also returns the station object as it leaves it.
\<close>

record station_methods =
  canCompleteOrder :: "(dish_ptr \<Rightarrow> Dish) \<Rightarrow> KitchenStation \<Rightarrow> string \<Rightarrow> bool"
  prepareDish :: "(dish_ptr \<Rightarrow> Dish) \<Rightarrow> KitchenStation \<Rightarrow> string \<Rightarrow> bool \<times> KitchenStation"

section \<open>The registry\<close>

text \<open>
  The list is the sequence of the pointers in its nodes, from the head; \<^verbatim>\<open>item_count_\<close> is
  its length. The \<^verbatim>\<open>for\<close> loop of \<^verbatim>\<open>removeStation\<close> over the positions is
  \<open>removeStation_from\<close>; the walks from \<^verbatim>\<open>getHeadNode()\<close> along \<^verbatim>\<open>getNext()\<close> are recursions
  over the list. A pointer that is not found is \<open>None\<close> (\<^verbatim>\<open>nullptr\<close>), a name that is not found
  has index \<open>-1\<close>.
\<close>

definition addStation :: "state \<Rightarrow> station_ptr \<Rightarrow> bool \<times> state" where
  "addStation st station =
     (case insert_entry (int (length (list_items st))) station (list_items st) of
        (ok, xs) \<Rightarrow> (ok, st\<lparr>list_items := xs\<rparr>))"

function removeStation_from :: "state \<Rightarrow> string \<Rightarrow> nat \<Rightarrow> bool \<times> state" where
  "removeStation_from st sname i =
     (if i < length (list_items st)
      then (if getName st (list_items st ! i) = sname
            then (case remove_entry (int i) (list_items st) of
                    (ok, xs) \<Rightarrow> (ok, st\<lparr>list_items := xs\<rparr>))
            else removeStation_from st sname (Suc i))
      else (False, st))"
  by pat_completeness auto
termination
  by (relation "measure (\<lambda>(st, n, i). length (list_items st) - i)") auto

declare removeStation_from.simps [simp del]

definition removeStation :: "state \<Rightarrow> string \<Rightarrow> bool \<times> state" where
  "removeStation st sname = removeStation_from st sname 0"

fun findStation_from :: "state \<Rightarrow> station_ptr list \<Rightarrow> string \<Rightarrow> station_ptr option" where
  "findStation_from st [] sname = None"
| "findStation_from st (p # ps) sname =
     (if getName st p = sname then Some p else findStation_from st ps sname)"

definition findStation :: "state \<Rightarrow> string \<Rightarrow> station_ptr option" where
  "findStation st sname = findStation_from st (list_items st) sname"

fun getStationIndex_from :: "state \<Rightarrow> station_ptr list \<Rightarrow> string \<Rightarrow> int \<Rightarrow> int" where
  "getStationIndex_from st [] nm index = - 1"
| "getStationIndex_from st (p # ps) nm index =
     (if getName st p = nm then index else getStationIndex_from st ps nm (index + 1))"

definition getStationIndex :: "state \<Rightarrow> string \<Rightarrow> int" where
  "getStationIndex st nm = getStationIndex_from st (list_items st) nm 0"

fun moveStationToFront_from :: "state \<Rightarrow> station_ptr list \<Rightarrow> string \<Rightarrow> bool \<times> state" where
  "moveStationToFront_from st [] sname = (False, st)"
| "moveStationToFront_from st (p # ps) sname =
     (if getName st p = sname
      then (let station = p;
                pos = getStationIndex st (getName st p);
                xs1 = snd (remove_entry pos (list_items st));
                xs2 = snd (insert_entry 0 station xs1)
            in (True, st\<lparr>list_items := xs2\<rparr>))
      else moveStationToFront_from st ps sname)"

text \<open>\<^verbatim>\<open>moveStationToFront\<close> looks at the head of the list only after it has found a
  station of that name, so the list is not empty there.\<close>

definition moveStationToFront :: "state \<Rightarrow> string \<Rightarrow> bool \<times> state" where
  "moveStationToFront st sname =
     (case findStation st sname of
        None \<Rightarrow> (False, st)
      | Some found \<Rightarrow>
          (case list_items st of
             [] \<Rightarrow> (False, st)
           | head # rest \<Rightarrow>
               if getName st head = sname then (True, st)
               else moveStationToFront_from st (list_items st) sname))"

text \<open>
  \<^verbatim>\<open>mergeStations\<close> reads the dishes and the stock of the second station once (the range
  of each \<^verbatim>\<open>for\<close> loop) and calls the first station's methods for each element. The two
  pointers may be the same object; the store makes that visible.
\<close>

definition assign_at :: "station_ptr \<Rightarrow> state \<Rightarrow> dish_ptr \<Rightarrow> state" where
  "assign_at p st d =
     st\<lparr>station_mem := (station_mem st)(p := snd (assignDishToStation (station_mem st p) d))\<rparr>"

definition replenish_at :: "station_ptr \<Rightarrow> state \<Rightarrow> Ingredient \<Rightarrow> state" where
  "replenish_at p st i =
     st\<lparr>station_mem := (station_mem st)(p := replenishStationIngredients (station_mem st p) i)\<rparr>"

definition mergeStations :: "state \<Rightarrow> string \<Rightarrow> string \<Rightarrow> bool \<times> state" where
  "mergeStations st sname1 sname2 =
     (case (findStation st sname1, findStation st sname2) of
        (Some station1, Some station2) \<Rightarrow>
          (let st1 = foldl (assign_at station1) st (dishes (station_mem st station2));
               st2 = foldl (replenish_at station1) st1 (ingredients_stock (station_mem st1 station2));
               st3 = snd (removeStation st2 sname2)
           in (True, st3))
      | _ \<Rightarrow> (False, st))"

section \<open>The backup pool\<close>

text \<open>
  The loop of \<^verbatim>\<open>replenishStationIngredientFromBackup\<close> over \<^verbatim>\<open>backup_ingredients_\<close>
  stops at the first record with the ingredient's name. There it either gives up (the
  record holds less than the quantity asked for) or takes the quantity out, erasing the
  record when nothing is left. The result is the price of the record and the vector as the
  loop leaves it, or \<open>None\<close> when the call returns false.
\<close>

fun withdraw :: "Ingredient list \<Rightarrow> string \<Rightarrow> int \<Rightarrow> (real \<times> Ingredient list) option" where
  "withdraw [] ingredient_name q = None"
| "withdraw (b # bs) ingredient_name q =
     (if name b = ingredient_name
      then (if quantity b \<ge> q
            then Some (price b,
                       if quantity b - q = 0 then bs else b\<lparr>quantity := quantity b - q\<rparr> # bs)
            else None)
      else (case withdraw bs ingredient_name q of
              None \<Rightarrow> None
            | Some (pr, bs') \<Rightarrow> Some (pr, b # bs')))"

definition replenishStationIngredientFromBackup ::
  "state \<Rightarrow> string \<Rightarrow> string \<Rightarrow> int \<Rightarrow> bool \<times> state" where
  "replenishStationIngredientFromBackup st sname ingredient_name q =
     (if q \<le> 0 then (False, st)
      else (case findStation st sname of
              None \<Rightarrow> (False, st)
            | Some station \<Rightarrow>
                (case withdraw (backup_ingredients st) ingredient_name q of
                   None \<Rightarrow> (False, st)
                 | Some (pr, pool) \<Rightarrow>
                     (let replenished_ingredient =
                            \<lparr>name = ingredient_name, quantity = q, required_quantity = 0, price = pr\<rparr>
                      in (True, (replenish_at station st replenished_ingredient)
                                  \<lparr>backup_ingredients := pool\<rparr>)))))"

text \<open>\<^verbatim>\<open>addBackupIngredients\<close> replaces the vector, whatever names it holds;
  \<^verbatim>\<open>addBackupIngredient\<close> adds to the first record of the same name, or appends.\<close>

definition addBackupIngredients :: "state \<Rightarrow> Ingredient list \<Rightarrow> bool \<times> state" where
  "addBackupIngredients st ingredients = (True, st\<lparr>backup_ingredients := ingredients\<rparr>)"

definition addBackupIngredient :: "state \<Rightarrow> Ingredient \<Rightarrow> bool \<times> state" where
  "addBackupIngredient st ingredient =
     (True, st\<lparr>backup_ingredients := add_ingredient (backup_ingredients st) ingredient\<rparr>)"

section \<open>Processing the queue\<close>

text \<open>The two small loops of \<^verbatim>\<open>processAllDishes\<close>: is a dish of this name assigned to the
  station, and how much of an ingredient does the station hold (the first record of that
  name, 0 when there is none).\<close>

fun dish_assigned :: "state \<Rightarrow> dish_ptr list \<Rightarrow> string \<Rightarrow> bool" where
  "dish_assigned st [] dn = False"
| "dish_assigned st (assigned_dish # ds) dn =
     (if dishName st assigned_dish = dn then True else dish_assigned st ds dn)"

fun current_quantity :: "Ingredient list \<Rightarrow> string \<Rightarrow> int" where
  "current_quantity [] ingredient_name = 0"
| "current_quantity (stock_ingredient # ss) ingredient_name =
     (if name stock_ingredient = ingredient_name then quantity stock_ingredient
      else current_quantity ss ingredient_name)"

text \<open>The replenishment loop over the dish's ingredients, for the station at \<open>p\<close>. The
  stock is read from the station at \<open>p\<close>; the withdrawal is asked for by station name.\<close>

fun replenish_loop :: "state \<Rightarrow> station_ptr \<Rightarrow> Ingredient list \<Rightarrow> bool \<times> state" where
  "replenish_loop st p [] = (True, st)"
| "replenish_loop st p (ingredient # rest) =
     (let required = required_quantity ingredient;
          current = current_quantity (ingredients_stock (station_mem st p)) (name ingredient);
          replenish_quantity = required - current
      in if replenish_quantity > 0
         then (case replenishStationIngredientFromBackup st (getName st p) (name ingredient)
                      replenish_quantity of
                 (ok, st') \<Rightarrow>
                   (let st'' = emit (Replenish_call (getName st p) (name ingredient)
                                       replenish_quantity ok) st'
                    in if ok then replenish_loop st'' p rest else (False, st'')))
         else replenish_loop st p rest)"

definition call_prepareDish :: "station_methods \<Rightarrow> state \<Rightarrow> station_ptr \<Rightarrow> string \<Rightarrow> bool \<times> state" where
  "call_prepareDish m st p dn =
     (case prepareDish m (dish_mem st) (station_mem st p) dn of
        (ok, s') \<Rightarrow>
          (ok, emit (PrepareDish_call p dn ok) (st\<lparr>station_mem := (station_mem st)(p := s')\<rparr>)))"

definition call_canCompleteOrder :: "station_methods \<Rightarrow> state \<Rightarrow> station_ptr \<Rightarrow> string \<Rightarrow> bool \<times> state" where
  "call_canCompleteOrder m st p dn =
     (let ok = canCompleteOrder m (dish_mem st) (station_mem st p) dn
      in (ok, emit (CanCompleteOrder_call p dn ok) st))"

text \<open>One turn of the loop over the stations: the result is \<open>True\<close> when the dish was
  prepared (the loop breaks), \<open>False\<close> when the walk goes on to the next station.\<close>

definition station_step :: "station_methods \<Rightarrow> state \<Rightarrow> station_ptr \<Rightarrow> dish_ptr \<Rightarrow> bool \<times> state" where
  "station_step m st p dish =
     (let dn = dishName st dish;
          st0 = emit (Print (getName st p @ '' attempting to prepare '' @ dn @ ''...'')) st
      in if \<not> dish_assigned st0 (dishes (station_mem st0 p)) dn
         then (False, emit (Print (getName st0 p @ '': Dish not available. Moving to next station...'')) st0)
         else (case call_canCompleteOrder m st0 p dn of
                 (True, st1) \<Rightarrow>
                   (case call_prepareDish m st1 p dn of
                      (True, st2) \<Rightarrow>
                        (True, emit (Print (getName st2 p @ '': Successfully prepared '' @ dn @ ''.'')) st2)
                    | (False, st2) \<Rightarrow> (False, st2))
               | (False, st1) \<Rightarrow>
                   (let st2 = emit (Print (getName st1 p @ '': Insufficient ingredients. Replenishing ingredients...'')) st1
                    in (case replenish_loop st2 p (dish_ingredients (dish_mem st2 dish)) of
                          (True, st3) \<Rightarrow>
                            (let st4 = emit (Print (getName st3 p @ '': Ingredients replenished.'')) st3
                             in (case call_prepareDish m st4 p dn of
                                   (True, st5) \<Rightarrow>
                                     (True, emit (Print (getName st5 p @ '': Successfully prepared '' @ dn @ ''.'')) st5)
                                 | (False, st5) \<Rightarrow>
                                     (False, emit (Print (getName st5 p @ '': Unable to prepare '' @ dn @ ''.'')) st5)))
                        | (False, st3) \<Rightarrow>
                            (False, emit (Print (getName st3 p @ '': Unable to replenish ingredients. Failed to prepare '' @ dn @ ''.'')) st3)))))"

fun station_walk :: "station_methods \<Rightarrow> state \<Rightarrow> station_ptr list \<Rightarrow> dish_ptr \<Rightarrow> bool \<times> state" where
  "station_walk m st [] dish = (False, st)"
| "station_walk m st (p # ps) dish =
     (case station_step m st p dish of
        (True, st') \<Rightarrow> (True, st')
      | (False, st') \<Rightarrow> station_walk m st' ps dish)"

text \<open>The body of the loop over the queue, after the dish has been popped: the walk over
  the stations from the head of the list, and the report when no station prepared it.\<close>

definition process_dish :: "station_methods \<Rightarrow> state \<Rightarrow> dish_ptr \<Rightarrow> bool \<times> state" where
  "process_dish m st dish =
     (let st0 = emit (Print (''PREPARING DISH: '' @ dishName st dish)) st
      in (case station_walk m st0 (list_items st0) dish of
            (True, st1) \<Rightarrow> (True, st1)
          | (False, st1) \<Rightarrow> (False, emit (Print (dishName st1 dish @ '' was not prepared.'')) st1)))"

text \<open>
  The loop over the queue pops while \<^verbatim>\<open>dish_queue_\<close> is not empty. It ends because the
  body leaves the queue as the pop left it; the lemmas below say so, for each function the
  body calls.
\<close>

lemma emit_fields [simp]:
  "list_items (emit e st) = list_items st"
  "dish_queue (emit e st) = dish_queue st"
  "backup_ingredients (emit e st) = backup_ingredients st"
  "station_mem (emit e st) = station_mem st"
  "dish_mem (emit e st) = dish_mem st"
  "trace (emit e st) = trace st @ [e]"
  by (simp_all add: emit_def)

lemma replenish_at_fields [simp]:
  "list_items (replenish_at p st i) = list_items st"
  "dish_queue (replenish_at p st i) = dish_queue st"
  "backup_ingredients (replenish_at p st i) = backup_ingredients st"
  "dish_mem (replenish_at p st i) = dish_mem st"
  "trace (replenish_at p st i) = trace st"
  "station_mem (replenish_at p st i) =
     (station_mem st)(p := replenishStationIngredients (station_mem st p) i)"
  by (simp_all add: replenish_at_def)

definition same_frame :: "state \<Rightarrow> state \<Rightarrow> bool" where
  "same_frame st st' \<longleftrightarrow>
     list_items st' = list_items st \<and> dish_queue st' = dish_queue st \<and> dish_mem st' = dish_mem st"

lemma same_frame_refl [simp]: "same_frame st st"
  by (simp add: same_frame_def)

lemma same_frame_trans: "same_frame a b \<Longrightarrow> same_frame b c \<Longrightarrow> same_frame a c"
  by (simp add: same_frame_def)

lemma same_frame_emit [simp]: "same_frame st (emit e st') = same_frame st st'"
  by (simp add: same_frame_def)

lemma replenishFromBackup_frame:
  "same_frame st (snd (replenishStationIngredientFromBackup st sn n q))"
  by (simp add: replenishStationIngredientFromBackup_def same_frame_def Let_def
           split: option.splits prod.splits)

lemma replenish_loop_frame: "same_frame st (snd (replenish_loop st p ings))"
proof (induction ings arbitrary: st)
  case Nil
  show ?case by simp
next
  case (Cons i rest)
  let ?q = "required_quantity i - current_quantity (ingredients_stock (station_mem st p)) (name i)"
  let ?r = "replenishStationIngredientFromBackup st (getName st p) (name i) ?q"
  let ?s = "emit (Replenish_call (getName st p) (name i) ?q (fst ?r)) (snd ?r)"
  have s: "same_frame st ?s"
    by (simp add: replenishFromBackup_frame)
  have "same_frame st (snd (replenish_loop ?s p rest))"
    using same_frame_trans [OF s Cons.IH] .
  with s Cons.IH [of st] show ?case
    by (auto simp: Let_def case_prod_beta)
qed

lemma replenish_loop_fields [simp]:
  "list_items (snd (replenish_loop st p ings)) = list_items st"
  "dish_queue (snd (replenish_loop st p ings)) = dish_queue st"
  "dish_mem (snd (replenish_loop st p ings)) = dish_mem st"
  using replenish_loop_frame [of st p ings] by (simp_all add: same_frame_def)

lemma call_prepareDish_fields [simp]:
  "list_items (snd (call_prepareDish m st p dn)) = list_items st"
  "dish_queue (snd (call_prepareDish m st p dn)) = dish_queue st"
  "dish_mem (snd (call_prepareDish m st p dn)) = dish_mem st"
  "backup_ingredients (snd (call_prepareDish m st p dn)) = backup_ingredients st"
  by (simp_all add: call_prepareDish_def case_prod_beta)

lemma call_canCompleteOrder_fields [simp]:
  "list_items (snd (call_canCompleteOrder m st p dn)) = list_items st"
  "dish_queue (snd (call_canCompleteOrder m st p dn)) = dish_queue st"
  "dish_mem (snd (call_canCompleteOrder m st p dn)) = dish_mem st"
  "backup_ingredients (snd (call_canCompleteOrder m st p dn)) = backup_ingredients st"
  "station_mem (snd (call_canCompleteOrder m st p dn)) = station_mem st"
  by (simp_all add: call_canCompleteOrder_def Let_def)

lemma station_step_fields [simp]:
  "list_items (snd (station_step m st p dish)) = list_items st"
  "dish_queue (snd (station_step m st p dish)) = dish_queue st"
  "dish_mem (snd (station_step m st p dish)) = dish_mem st"
  by (simp_all add: station_step_def Let_def case_prod_beta bool.case_eq_if)

lemma station_walk_fields [simp]:
  "list_items (snd (station_walk m st ps dish)) = list_items st"
  "dish_queue (snd (station_walk m st ps dish)) = dish_queue st"
  "dish_mem (snd (station_walk m st ps dish)) = dish_mem st"
  by (induction ps arbitrary: st; simp add: case_prod_beta bool.case_eq_if)+

lemma process_dish_fields [simp]:
  "list_items (snd (process_dish m st dish)) = list_items st"
  "dish_queue (snd (process_dish m st dish)) = dish_queue st"
  "dish_mem (snd (process_dish m st dish)) = dish_mem st"
  by (simp_all add: process_dish_def Let_def case_prod_beta bool.case_eq_if)

lemma process_dish_result_queue:
  "(b, st') = process_dish m st dish \<Longrightarrow> dish_queue st' = dish_queue st"
  by (metis process_dish_fields(2) snd_conv)

function dish_loop :: "station_methods \<Rightarrow> state \<Rightarrow> dish_ptr list \<Rightarrow> state \<times> dish_ptr list" where
  "dish_loop m st temp_queue =
     (case dish_queue st of
        [] \<Rightarrow> (st, temp_queue)
      | dish # q \<Rightarrow>
          (case process_dish m (st\<lparr>dish_queue := q\<rparr>) dish of
             (True, st') \<Rightarrow> dish_loop m st' temp_queue
           | (False, st') \<Rightarrow> dish_loop m st' (temp_queue @ [dish])))"
  by pat_completeness auto
termination
  by (relation "measure (\<lambda>(m, st, temp_queue). length (dish_queue st))")
     (auto dest: process_dish_result_queue)

declare dish_loop.simps [simp del]

text \<open>After the loop the queue becomes the temporary queue. The last output starts with
  two newline characters: two empty lines, then the line of text.\<close>

definition processAllDishes :: "station_methods \<Rightarrow> state \<Rightarrow> state" where
  "processAllDishes m st =
     (case dish_loop m st [] of
        (st', temp_queue) \<Rightarrow>
          emit (Print ''All dishes have been processed.'')
            (emit (Print []) (emit (Print []) (st'\<lparr>dish_queue := temp_queue\<rparr>))))"

section \<open>Observations and a worked example\<close>

text \<open>The names in the registry, in list order.\<close>

definition registered_names :: "state \<Rightarrow> string list" where
  "registered_names st = map (getName st) (list_items st)"

text \<open>How much of an ingredient a vector of records holds in all: the sum over the records
  of that name. Where the names in the vector are distinct this is the quantity of the one
  record, which \<open>current_quantity\<close> reads.\<close>

fun total_quantity :: "Ingredient list \<Rightarrow> string \<Rightarrow> int" where
  "total_quantity [] n = 0"
| "total_quantity (i # rest) n = (if name i = n then quantity i else 0) + total_quantity rest n"

text \<open>
  Modelled from the spec: \<^verbatim>\<open>KitchenStation::canCompleteOrder\<close> and
  \<^verbatim>\<open>KitchenStation::prepareDish\<close> (\<^verbatim>\<open>KitchenStation.cpp\<close> is not among the sources).
  The spec: "pure capability query against current stock; must not mutate stock" and
  "attempts production; on true, must have consumed the required ingredient quantities
  from its own stock; on false, stock must be left unchanged". This instance serves the
  worked examples; the theorems are about any station methods.
\<close>

fun consume :: "Ingredient list \<Rightarrow> Ingredient \<Rightarrow> Ingredient list" where
  "consume [] i = []"
| "consume (s # ss) i =
     (if name s = name i then s\<lparr>quantity := quantity s - required_quantity i\<rparr> # ss
      else s # consume ss i)"

definition spec_canCompleteOrder :: "(dish_ptr \<Rightarrow> Dish) \<Rightarrow> KitchenStation \<Rightarrow> string \<Rightarrow> bool" where
  "spec_canCompleteOrder dm s dn =
     (case find (\<lambda>d. dish_name (dm d) = dn) (dishes s) of
        None \<Rightarrow> False
      | Some d \<Rightarrow>
          list_all (\<lambda>i. required_quantity i \<le> current_quantity (ingredients_stock s) (name i))
            (dish_ingredients (dm d)))"

definition spec_prepareDish ::
  "(dish_ptr \<Rightarrow> Dish) \<Rightarrow> KitchenStation \<Rightarrow> string \<Rightarrow> bool \<times> KitchenStation" where
  "spec_prepareDish dm s dn =
     (case find (\<lambda>d. dish_name (dm d) = dn) (dishes s) of
        None \<Rightarrow> (False, s)
      | Some d \<Rightarrow>
          if spec_canCompleteOrder dm s dn
          then (True, s\<lparr>ingredients_stock := foldl consume (ingredients_stock s) (dish_ingredients (dm d))\<rparr>)
          else (False, s))"

definition spec_methods :: station_methods where
  "spec_methods = \<lparr>canCompleteOrder = spec_canCompleteOrder, prepareDish = spec_prepareDish\<rparr>"

text \<open>
  A kitchen for the examples. Stations: 0 is the Grill, 1 the Oven, 2 the Pasta station,
  and every other address holds a second station that is also called Grill. Dishes: 0 is
  Grilled Chicken (one Chicken), 1 is Spaghetti Bolognese (one Spaghetti, one Tomato
  Sauce), anything else is Beef Wellington, which no station is assigned.
\<close>

definition ingredient :: "string \<Rightarrow> int \<Rightarrow> int \<Rightarrow> Ingredient" where
  "ingredient n q r = \<lparr>name = n, quantity = q, required_quantity = r, price = 1\<rparr>"

definition kitchen_stations :: "station_ptr \<Rightarrow> KitchenStation" where
  "kitchen_stations p =
     (if p = 0 then \<lparr>station_name = ''Grill'', dishes = [0],
                     ingredients_stock = [ingredient ''Chicken'' 0 0]\<rparr>
      else if p = 1 then \<lparr>station_name = ''Oven'', dishes = [0],
                     ingredients_stock = [ingredient ''Chicken'' 5 0, ingredient ''Salt'' 2 0]\<rparr>
      else if p = 2 then \<lparr>station_name = ''Pasta'', dishes = [1], ingredients_stock = []\<rparr>
      else \<lparr>station_name = ''Grill'', dishes = [], ingredients_stock = []\<rparr>)"

definition kitchen_dishes :: "dish_ptr \<Rightarrow> Dish" where
  "kitchen_dishes d =
     (if d = 0 then \<lparr>dish_name = ''Grilled Chicken'',
                     dish_ingredients = [ingredient ''Chicken'' 0 1]\<rparr>
      else if d = 1 then \<lparr>dish_name = ''Spaghetti Bolognese'',
                     dish_ingredients = [ingredient ''Spaghetti'' 0 1, ingredient ''Tomato Sauce'' 0 1]\<rparr>
      else \<lparr>dish_name = ''Beef Wellington'', dish_ingredients = [ingredient ''Beef'' 0 1]\<rparr>)"

definition kitchen :: "station_ptr list \<Rightarrow> dish_ptr list \<Rightarrow> Ingredient list \<Rightarrow> state" where
  "kitchen stations queue pool =
     \<lparr>list_items = stations, dish_queue = queue, backup_ingredients = pool,
      station_mem = kitchen_stations, dish_mem = kitchen_dishes, trace = []\<rparr>"

text \<open>The state in which \<^verbatim>\<open>mergeStations\<close> calls \<^verbatim>\<open>removeStation\<close>: the first station
  holds its dishes followed by the second station's, and its stock with the second
  station's records added one by one.\<close>

definition merged_station :: "KitchenStation \<Rightarrow> KitchenStation \<Rightarrow> KitchenStation" where
  "merged_station s1 s2 =
     s1\<lparr>dishes := dishes s1 @ dishes s2,
        ingredients_stock := foldl add_ingredient (ingredients_stock s1) (ingredients_stock s2)\<rparr>"

text \<open>A sequence of registry operations, for the invariant of the registry.\<close>

datatype registry_op = Add station_ptr | Remove string | Merge string string

fun apply_op :: "state \<Rightarrow> registry_op \<Rightarrow> state" where
  "apply_op st (Add station) = snd (addStation st station)"
| "apply_op st (Remove sname) = snd (removeStation st sname)"
| "apply_op st (Merge sname1 sname2) = snd (mergeStations st sname1 sname2)"

definition run_ops :: "state \<Rightarrow> registry_op list \<Rightarrow> state" where
  "run_ops st ops = foldl apply_op st ops"

text \<open>Every \<open>Add\<close> of the sequence registers a station whose name is not in the registry
  at that moment.\<close>

fun adds_fresh :: "state \<Rightarrow> registry_op list \<Rightarrow> bool" where
  "adds_fresh st [] = True"
| "adds_fresh st (Add station # ops) =
     (getName st station \<notin> set (registered_names st) \<and> adds_fresh (apply_op st (Add station)) ops)"
| "adds_fresh st (operation # ops) = adds_fresh (apply_op st operation) ops"

text \<open>What a turn at a station adds to the trace, and what it shows: the calls of
  \<^verbatim>\<open>prepareDish\<close>, and the quantity of an ingredient that the successful withdrawals took.\<close>

definition new_events :: "state \<Rightarrow> state \<Rightarrow> event list" where
  "new_events st st' = drop (length (trace st)) (trace st')"

fun is_prepare :: "event \<Rightarrow> bool" where
  "is_prepare (PrepareDish_call p dn ok) = True"
| "is_prepare e = False"

fun withdrawn :: "string \<Rightarrow> event list \<Rightarrow> int" where
  "withdrawn n [] = 0"
| "withdrawn n (Replenish_call sn n' q ok # es) = (if ok \<and> n' = n then q else 0) + withdrawn n es"
| "withdrawn n (e # es) = withdrawn n es"

text \<open>The shortfall of an ingredient at the station \<open>p\<close>, as the replenishment loop
  computes it, and the state in which \<^verbatim>\<open>processAllDishes\<close> enters that loop.\<close>

definition shortfall :: "state \<Rightarrow> station_ptr \<Rightarrow> Ingredient \<Rightarrow> int" where
  "shortfall st p i =
     required_quantity i - current_quantity (ingredients_stock (station_mem st p)) (name i)"

definition replenish_start :: "state \<Rightarrow> station_ptr \<Rightarrow> dish_ptr \<Rightarrow> state" where
  "replenish_start st p dish =
     emit (Print (getName st p @ '': Insufficient ingredients. Replenishing ingredients...''))
       (emit (CanCompleteOrder_call p (dishName st dish) False)
         (emit (Print (getName st p @ '' attempting to prepare '' @ dishName st dish @ ''...'')) st))"

text \<open>
  What it is for a dish to be prepared, said with \<^verbatim>\<open>prepareDish\<close> itself. The station at
  \<open>p\<close> prepares the dish in its turn when the dish is assigned to it and \<^verbatim>\<open>prepareDish\<close>
  succeeds there: called on the station as it is when \<^verbatim>\<open>canCompleteOrder\<close> says yes, and
  otherwise on the station as a successful replenishment has left it.
\<close>

definition prepared_by :: "station_methods \<Rightarrow> state \<Rightarrow> station_ptr \<Rightarrow> dish_ptr \<Rightarrow> bool" where
  "prepared_by m st p dish \<longleftrightarrow>
     dish_assigned st (dishes (station_mem st p)) (dishName st dish) \<and>
     (if canCompleteOrder m (dish_mem st) (station_mem st p) (dishName st dish)
      then fst (prepareDish m (dish_mem st) (station_mem st p) (dishName st dish))
      else fst (replenish_loop (replenish_start st p dish) p (dish_ingredients (dish_mem st dish))) \<and>
           fst (prepareDish m (dish_mem st)
                  (station_mem (snd (replenish_loop (replenish_start st p dish) p
                                       (dish_ingredients (dish_mem st dish)))) p)
                  (dishName st dish)))"

text \<open>The state after the stations \<open>ps\<close> have each had their turn, in order, and whether
  the station at position \<open>k\<close> of a list prepares the dish when the stations before it have
  had theirs.\<close>

definition turns :: "station_methods \<Rightarrow> state \<Rightarrow> station_ptr list \<Rightarrow> dish_ptr \<Rightarrow> state" where
  "turns m st ps dish = foldl (\<lambda>s p. snd (station_step m s p dish)) st ps"

definition prepared_at :: "station_methods \<Rightarrow> state \<Rightarrow> station_ptr list \<Rightarrow> dish_ptr \<Rightarrow> nat \<Rightarrow> bool" where
  "prepared_at m st ps dish k \<longleftrightarrow> prepared_by m (turns m st (take k ps) dish) (ps ! k) dish"

text \<open>
  A registered station prepares the dish in the pass over the registry: there is a
  position \<open>k\<close> of the list whose station prepares it at its turn, no station before it
  having done so. The pass starts in the state in which the dish has been announced.
\<close>

definition pass_start :: "state \<Rightarrow> dish_ptr \<Rightarrow> state" where
  "pass_start st dish = emit (Print (''PREPARING DISH: '' @ dishName st dish)) st"

definition prepared_in_pass :: "station_methods \<Rightarrow> state \<Rightarrow> dish_ptr \<Rightarrow> bool" where
  "prepared_in_pass m st dish \<longleftrightarrow>
     (\<exists>k\<in>set [0..<length (list_items st)].
        prepared_at m (pass_start st dish) (list_items st) dish k \<and>
        (\<forall>j\<in>set [0..<k]. \<not> prepared_at m (pass_start st dish) (list_items st) dish j))"

text \<open>For each entry of a queue, in order: does a registered station prepare the dish in
  the pass made for that entry, in the state the entries before it have left. The entries
  that stay are those for which none does.\<close>

fun resolved_flags :: "station_methods \<Rightarrow> state \<Rightarrow> dish_ptr list \<Rightarrow> bool list" where
  "resolved_flags m st [] = []"
| "resolved_flags m st (dish # q) =
     prepared_in_pass m (st\<lparr>dish_queue := q\<rparr>) dish
       # resolved_flags m (snd (process_dish m (st\<lparr>dish_queue := q\<rparr>) dish)) q"

definition unresolved :: "dish_ptr list \<Rightarrow> bool list \<Rightarrow> dish_ptr list" where
  "unresolved q flags = map fst (filter (\<lambda>(dish, ok). \<not> ok) (zip q flags))"

text \<open>Two more stations' methods for the examples: one that says it can complete any
  order and then fails to prepare it, and one that always says it cannot.\<close>

definition failing_methods :: station_methods where
  "failing_methods =
     \<lparr>canCompleteOrder = (\<lambda>dm s dn. True), prepareDish = (\<lambda>dm s dn. (False, s))\<rparr>"

definition refusing_methods :: station_methods where
  "refusing_methods =
     \<lparr>canCompleteOrder = (\<lambda>dm s dn. False), prepareDish = spec_prepareDish\<rparr>"

section \<open>Facts about the worked example\<close>

lemma kitchen_fields [simp]:
  "list_items (kitchen xs q pool) = xs"
  "dish_queue (kitchen xs q pool) = q"
  "backup_ingredients (kitchen xs q pool) = pool"
  "station_mem (kitchen xs q pool) = kitchen_stations"
  "dish_mem (kitchen xs q pool) = kitchen_dishes"
  "trace (kitchen xs q pool) = []"
  "getName (kitchen xs q pool) p = station_name (kitchen_stations p)"
  "dishName (kitchen xs q pool) d = dish_name (kitchen_dishes d)"
  "(kitchen xs q pool)\<lparr>list_items := ys\<rparr> = kitchen ys q pool"
  by (simp_all add: kitchen_def getName_def dishName_def)

lemma kitchen_stations_simps [simp]:
  "kitchen_stations 0 = \<lparr>station_name = ''Grill'', dishes = [0],
                     ingredients_stock = [ingredient ''Chicken'' 0 0]\<rparr>"
  "kitchen_stations (Suc 0) = \<lparr>station_name = ''Oven'', dishes = [0],
                     ingredients_stock = [ingredient ''Chicken'' 5 0, ingredient ''Salt'' 2 0]\<rparr>"
  "kitchen_stations 2 = \<lparr>station_name = ''Pasta'', dishes = [1], ingredients_stock = []\<rparr>"
  "kitchen_stations 3 = \<lparr>station_name = ''Grill'', dishes = [], ingredients_stock = []\<rparr>"
  by (simp_all add: kitchen_stations_def)

lemma ingredient_fields [simp]:
  "name (ingredient n q r) = n"
  "quantity (ingredient n q r) = q"
  "required_quantity (ingredient n q r) = r"
  "price (ingredient n q r) = 1"
  by (simp_all add: ingredient_def)

lemma ingredient_update [simp]:
  "(ingredient n q r)\<lparr>quantity := q'\<rparr> = ingredient n q' r"
  by (simp add: ingredient_def)

lemma kitchen_dishes_simps [simp]:
  "kitchen_dishes 0 = \<lparr>dish_name = ''Grilled Chicken'',
                     dish_ingredients = [ingredient ''Chicken'' 0 1]\<rparr>"
  "kitchen_dishes (Suc 0) = \<lparr>dish_name = ''Spaghetti Bolognese'',
                     dish_ingredients = [ingredient ''Spaghetti'' 0 1, ingredient ''Tomato Sauce'' 0 1]\<rparr>"
  "kitchen_dishes 2 = \<lparr>dish_name = ''Beef Wellington'', dish_ingredients = [ingredient ''Beef'' 0 1]\<rparr>"
  by (simp_all add: kitchen_dishes_def)

section \<open>Facts about the registry\<close>

lemma getName_simps [simp]:
  "getName (st\<lparr>list_items := xs\<rparr>) = getName st"
  "getName (st\<lparr>dish_queue := q\<rparr>) = getName st"
  "getName (st\<lparr>backup_ingredients := b\<rparr>) = getName st"
  "getName (emit e st) = getName st"
  by (simp_all add: getName_def fun_eq_iff)

lemma findStation_from_None:
  "findStation_from st ps n = None \<longleftrightarrow> (\<forall>x\<in>set ps. getName st x \<noteq> n)"
  by (induction ps) auto

lemma findStation_from_split:
  "\<forall>x\<in>set pre. getName st x \<noteq> n \<Longrightarrow> getName st p = n \<Longrightarrow>
   findStation_from st (pre @ p # post) n = Some p"
  by (induction pre) auto

lemma findStation_from_SomeD:
  "findStation_from st ps n = Some p \<Longrightarrow>
   \<exists>pre post. ps = pre @ p # post \<and> getName st p = n \<and> (\<forall>x\<in>set pre. getName st x \<noteq> n)"
proof (induction ps)
  case Nil
  then show ?case by simp
next
  case (Cons a ps)
  show ?case
  proof (cases "getName st a = n")
    case True
    with Cons.prems have "a = p" by simp
    with True have "a # ps = [] @ p # ps \<and> getName st p = n \<and> (\<forall>x\<in>set []. getName st x \<noteq> n)"
      by simp
    then show ?thesis by blast
  next
    case False
    with Cons.prems have "findStation_from st ps n = Some p" by simp
    from Cons.IH [OF this] obtain pre post where
      "ps = pre @ p # post" "getName st p = n" "\<forall>x\<in>set pre. getName st x \<noteq> n"
      by blast
    with False have "a # ps = (a # pre) @ p # post \<and> getName st p = n
        \<and> (\<forall>x\<in>set (a # pre). getName st x \<noteq> n)"
      by simp
    then show ?thesis by blast
  qed
qed

lemma getStationIndex_from_split:
  "\<forall>x\<in>set pre. getName st x \<noteq> n \<Longrightarrow> getName st p = n \<Longrightarrow>
   getStationIndex_from st (pre @ p # post) n k = k + int (length pre)"
  by (induction pre arbitrary: k) auto

lemma getStationIndex_from_absent:
  "\<forall>x\<in>set ps. getName st x \<noteq> n \<Longrightarrow> getStationIndex_from st ps n k = - 1"
  by (induction ps arbitrary: k) auto

lemma remove_entry_split:
  "remove_entry (int (length pre)) (pre @ p # post) = (True, pre @ post)"
  by (simp add: remove_entry_def)

lemma insert_entry_front: "insert_entry 0 x xs = (True, x # xs)"
  by (simp add: insert_entry_def)

lemma insert_entry_back: "insert_entry (int (length xs)) x xs = (True, xs @ [x])"
  by (simp add: insert_entry_def)

lemma moveStationToFront_from_split:
  "\<forall>x\<in>set pre. getName st x \<noteq> n \<Longrightarrow> getName st p = n \<Longrightarrow>
   moveStationToFront_from st (pre @ p # post) n =
     (True, st\<lparr>list_items :=
        snd (insert_entry 0 p (snd (remove_entry (getStationIndex st n) (list_items st))))\<rparr>)"
  by (induction pre) (auto simp: Let_def)

lemma removeStation_from_split:
  assumes "list_items st = pre @ p # post" "\<forall>x\<in>set pre. getName st x \<noteq> n" "getName st p = n"
  shows "i \<le> length pre \<Longrightarrow> removeStation_from st n i = (True, st\<lparr>list_items := pre @ post\<rparr>)"
proof (induction "length pre - i" arbitrary: i)
  case 0
  then have i: "i = length pre" by simp
  with assms show ?case
    by (subst removeStation_from.simps) (simp add: remove_entry_split)
next
  case (Suc k)
  then have i: "i < length pre" by simp
  then have "list_items st ! i = pre ! i" "pre ! i \<in> set pre"
    using assms(1) by (simp_all add: nth_append)
  with assms(2) have "getName st (list_items st ! i) \<noteq> n" by simp
  moreover have "removeStation_from st n (Suc i) = (True, st\<lparr>list_items := pre @ post\<rparr>)"
    using Suc i by (intro Suc.hyps(1)) simp_all
  ultimately show ?case
    using i assms(1) by (subst removeStation_from.simps) simp
qed

lemma removeStation_from_absent:
  "\<forall>x\<in>set (list_items st). getName st x \<noteq> n \<Longrightarrow> removeStation_from st n i = (False, st)"
proof (induction "length (list_items st) - i" arbitrary: i)
  case 0
  then show ?case by (subst removeStation_from.simps) simp
next
  case (Suc k)
  then have i: "i < length (list_items st)" by simp
  with Suc.prems have "getName st (list_items st ! i) \<noteq> n" by simp
  moreover have "removeStation_from st n (Suc i) = (False, st)"
    using Suc by (intro Suc.hyps(1)) simp_all
  ultimately show ?case
    using i by (subst removeStation_from.simps) simp
qed

lemma removeStation_split:
  "list_items st = pre @ p # post \<Longrightarrow> \<forall>x\<in>set pre. getName st x \<noteq> n \<Longrightarrow> getName st p = n \<Longrightarrow>
   removeStation st n = (True, st\<lparr>list_items := pre @ post\<rparr>)"
  by (simp add: removeStation_def removeStation_from_split)

lemma removeStation_absent:
  "\<forall>x\<in>set (list_items st). getName st x \<noteq> n \<Longrightarrow> removeStation st n = (False, st)"
  by (simp add: removeStation_def removeStation_from_absent)

lemma moveStationToFront_split:
  assumes "list_items st = pre @ p # post" "\<forall>x\<in>set pre. getName st x \<noteq> n" "getName st p = n"
  shows "moveStationToFront st n = (True, st\<lparr>list_items := p # pre @ post\<rparr>)"
proof (cases pre)
  case Nil
  with assms show ?thesis
    by (simp add: moveStationToFront_def findStation_def)
next
  case (Cons a pre')
  have f: "findStation st n = Some p"
    using assms by (simp add: findStation_def findStation_from_split)
  have g: "getStationIndex st n = int (length pre)"
    using assms by (simp add: getStationIndex_def getStationIndex_from_split)
  have h: "getName st a \<noteq> n"
    using assms(2) Cons by simp
  have "moveStationToFront st n = moveStationToFront_from st (list_items st) n"
    using f h assms(1) Cons by (simp add: moveStationToFront_def)
  also have "\<dots> = (True, st\<lparr>list_items :=
        snd (insert_entry 0 p (snd (remove_entry (getStationIndex st n) (list_items st))))\<rparr>)"
    using assms by (simp only: moveStationToFront_from_split)
  also have "\<dots> = (True, st\<lparr>list_items := p # pre @ post\<rparr>)"
    by (simp only: g assms(1) remove_entry_split insert_entry_front snd_conv)
  finally show ?thesis .
qed

lemma moveStationToFront_absent:
  "findStation st n = None \<Longrightarrow> moveStationToFront st n = (False, st)"
  by (simp add: moveStationToFront_def)

section \<open>Moving a station to the front\<close>

text \<open>
  Claim C7. \<^verbatim>\<open>moveStationToFront(name)\<close> returns false and changes nothing when no
  station has the name; returns true and changes nothing when the station at index 0 has
  it; and otherwise, with \<open>p\<close> the first station of that name, returns true with \<open>p\<close>
  taken out of its place and put at index 0. The result differs from the state before in
  the list alone: the store of station objects is the same, so the station that moved
  has the dishes and the stock it had.
\<close>

theorem moveStationToFront_cases:
  "(findStation st n = None \<longrightarrow> moveStationToFront st n = (False, st)) \<and>
   (\<forall>p rest. list_items st = p # rest \<and> getName st p = n \<longrightarrow>
      moveStationToFront st n = (True, st)) \<and>
   (\<forall>pre p post. list_items st = pre @ p # post \<and> pre \<noteq> [] \<and>
        (\<forall>x\<in>set pre. getName st x \<noteq> n) \<and> getName st p = n \<longrightarrow>
      moveStationToFront st n = (True, st\<lparr>list_items := p # pre @ post\<rparr>) \<and>
      station_mem (snd (moveStationToFront st n)) = station_mem st)"
proof (intro conjI allI impI)
  assume "findStation st n = None"
  then show "moveStationToFront st n = (False, st)"
    by (rule moveStationToFront_absent)
next
  fix p rest
  assume "list_items st = p # rest \<and> getName st p = n"
  then show "moveStationToFront st n = (True, st)"
    using moveStationToFront_split [of st "[]" p rest n] by simp
next
  fix pre p post
  assume a: "list_items st = pre @ p # post \<and> pre \<noteq> [] \<and>
        (\<forall>x\<in>set pre. getName st x \<noteq> n) \<and> getName st p = n"
  then show m: "moveStationToFront st n = (True, st\<lparr>list_items := p # pre @ post\<rparr>)"
    by (simp add: moveStationToFront_split)
  show "station_mem (snd (moveStationToFront st n)) = station_mem st"
    by (simp add: m)
qed

theorem moveStationToFront_cases_witness:
  "findStation (kitchen [0, 1, 2] [] []) ''Bar'' = None \<and>
   moveStationToFront (kitchen [0, 1, 2] [] []) ''Bar'' = (False, kitchen [0, 1, 2] [] []) \<and>
   getName (kitchen [0, 1, 2] [] []) 0 = ''Grill'' \<and>
   moveStationToFront (kitchen [0, 1, 2] [] []) ''Grill'' = (True, kitchen [0, 1, 2] [] []) \<and>
   getName (kitchen [0, 1, 2] [] []) 2 = ''Pasta'' \<and>
   moveStationToFront (kitchen [0, 1, 2] [] []) ''Pasta'' = (True, kitchen [2, 0, 1] [] [])"
proof -
  let ?k = "kitchen [0, 1, 2] [] []"
  have names: "getName ?k 0 = ''Grill''" "getName ?k 1 = ''Oven''" "getName ?k 2 = ''Pasta''"
    by (simp_all add: getName_def kitchen_def kitchen_stations_def)
  have absent: "findStation ?k ''Bar'' = None"
    by (simp add: findStation_def getName_def kitchen_def kitchen_stations_def)
  have items: "list_items ?k = [0, 1, 2]"
    by (simp add: kitchen_def)
  have upd: "?k\<lparr>list_items := [2, 0, 1]\<rparr> = kitchen [2, 0, 1] [] []"
    by (simp add: kitchen_def)
  from moveStationToFront_cases [of ?k "''Bar''"] absent
  have 1: "moveStationToFront ?k ''Bar'' = (False, ?k)" by blast
  from moveStationToFront_cases [of ?k "''Grill''"] items names
  have 2: "moveStationToFront ?k ''Grill'' = (True, ?k)" by blast
  have "list_items ?k = [0, 1] @ 2 # [] \<and> [0, 1] \<noteq> ([] :: nat list) \<and>
        (\<forall>x\<in>set [0, 1]. getName ?k x \<noteq> ''Pasta'') \<and> getName ?k 2 = ''Pasta''"
    using items names by simp
  with moveStationToFront_cases [of ?k "''Pasta''"]
  have 3: "moveStationToFront ?k ''Pasta'' = (True, ?k\<lparr>list_items := [2] @ [0, 1] @ []\<rparr>)"
    by (metis append.simps)
  show ?thesis
    using absent names 1 2 3 upd by simp
qed

text \<open>
  Claim C8. Calling \<^verbatim>\<open>moveStationToFront(X)\<close> a second time returns what the first call
  returned and leaves the state, and so the order of the registry, as the first call left
  it.
\<close>

theorem moveStationToFront_idempotent:
  "moveStationToFront (snd (moveStationToFront st n)) n = moveStationToFront st n \<and>
   list_items (snd (moveStationToFront (snd (moveStationToFront st n)) n))
     = list_items (snd (moveStationToFront st n))"
proof -
  have "moveStationToFront (snd (moveStationToFront st n)) n = moveStationToFront st n"
  proof (cases "findStation st n")
    case None
    then show ?thesis by (simp add: moveStationToFront_absent)
  next
    case (Some p)
    then obtain pre post where s: "list_items st = pre @ p # post"
      "\<forall>x\<in>set pre. getName st x \<noteq> n" "getName st p = n"
      unfolding findStation_def by (blast dest: findStation_from_SomeD)
    let ?st' = "st\<lparr>list_items := p # pre @ post\<rparr>"
    have first: "moveStationToFront st n = (True, ?st')"
      using s by (rule moveStationToFront_split)
    have "moveStationToFront ?st' n = (True, ?st'\<lparr>list_items := p # [] @ (pre @ post)\<rparr>)"
      using s(3) by (intro moveStationToFront_split) simp_all
    then have "moveStationToFront ?st' n = (True, ?st')" by simp
    with first show ?thesis by simp
  qed
  then show ?thesis by simp
qed

theorem moveStationToFront_idempotent_witness:
  "list_items (snd (moveStationToFront (kitchen [0, 1, 2] [] []) ''Pasta'')) = [2, 0, 1] \<and>
   list_items (snd (moveStationToFront (snd (moveStationToFront (kitchen [0, 1, 2] [] []) ''Pasta'')) ''Pasta''))
     = [2, 0, 1]"
proof -
  let ?k = "kitchen [0, Suc 0, 2] [] []"
  have "moveStationToFront ?k ''Pasta'' = (True, ?k\<lparr>list_items := 2 # [0, Suc 0] @ []\<rparr>)"
    by (rule moveStationToFront_split) simp_all
  then have 1: "list_items (snd (moveStationToFront ?k ''Pasta'')) = [2, 0, Suc 0]"
    by simp
  from moveStationToFront_idempotent [of ?k "''Pasta''", THEN conjunct2] 1
  have "list_items (snd (moveStationToFront (snd (moveStationToFront ?k ''Pasta'')) ''Pasta'')) = [2, 0, Suc 0]"
    by simp
  with 1 show ?thesis by simp
qed

section \<open>Facts about merging\<close>

lemma getName_station_mem:
  "station_name (station_mem st' p) = station_name (station_mem st p) \<Longrightarrow> getName st' p = getName st p"
  by (simp add: getName_def)

lemma foldl_assign_at:
  "foldl (assign_at p) st ds =
     st\<lparr>station_mem := (station_mem st)(p := (station_mem st p)\<lparr>dishes := dishes (station_mem st p) @ ds\<rparr>)\<rparr>"
  by (induction ds arbitrary: st) (simp_all add: assign_at_def assignDishToStation_def)

lemma foldl_replenish_at:
  "foldl (replenish_at p) st ings =
     st\<lparr>station_mem := (station_mem st)(p := (station_mem st p)
          \<lparr>ingredients_stock := foldl add_ingredient (ingredients_stock (station_mem st p)) ings\<rparr>)\<rparr>"
  by (induction ings arbitrary: st) (simp_all add: replenish_at_def replenishStationIngredients_def)

lemma mergeStations_found:
  assumes "findStation st a = Some pa" "findStation st b = Some pb"
  shows "mergeStations st a b =
     (True, snd (removeStation
        (st\<lparr>station_mem := (station_mem st)(pa := merged_station (station_mem st pa) (station_mem st pb))\<rparr>) b))"
proof (cases "pa = pb")
  case True
  with assms show ?thesis
    by (simp add: mergeStations_def Let_def foldl_assign_at foldl_replenish_at merged_station_def)
next
  case False
  with assms show ?thesis
    by (simp add: mergeStations_def Let_def foldl_assign_at foldl_replenish_at merged_station_def)
qed

lemma mergeStations_absent:
  "findStation st a = None \<or> findStation st b = None \<Longrightarrow> mergeStations st a b = (False, st)"
  by (auto simp: mergeStations_def split: option.splits)

lemma station_name_merged [simp]: "station_name (merged_station s1 s2) = station_name s1"
  by (simp add: merged_station_def)

lemma getName_merged [simp]:
  "getName (st\<lparr>station_mem := (station_mem st)(pa := merged_station (station_mem st pa) s2)\<rparr>) x
     = getName st x"
  by (simp add: getName_def)

lemma mergeStations_split:
  assumes a: "findStation st a = Some pa"
    and b: "list_items st = pre @ pb # post" "\<forall>x\<in>set pre. getName st x \<noteq> b" "getName st pb = b"
  shows "mergeStations st a b =
     (True, st\<lparr>station_mem := (station_mem st)(pa := merged_station (station_mem st pa) (station_mem st pb)),
               list_items := pre @ post\<rparr>)"
proof -
  let ?st2 = "st\<lparr>station_mem := (station_mem st)(pa := merged_station (station_mem st pa) (station_mem st pb))\<rparr>"
  have fb: "findStation st b = Some pb"
    using b by (simp add: findStation_def findStation_from_split)
  have "removeStation ?st2 b = (True, ?st2\<lparr>list_items := pre @ post\<rparr>)"
    using b by (intro removeStation_split) simp_all
  with mergeStations_found [OF a fb] show ?thesis by simp
qed

lemma total_quantity_add_ingredient:
  "total_quantity (add_ingredient ss i) n = total_quantity ss n + (if name i = n then quantity i else 0)"
  by (induction ss) auto

lemma total_quantity_foldl_add:
  "total_quantity (foldl add_ingredient ss is) n = total_quantity ss n + total_quantity is n"
  by (induction "is" arbitrary: ss) (auto simp: total_quantity_add_ingredient)

lemma current_quantity_add_ingredient:
  "current_quantity (add_ingredient ss i) n = current_quantity ss n + (if name i = n then quantity i else 0)"
  by (induction ss) auto

lemma names_add_ingredient:
  "map name (add_ingredient ss i) = map name ss @ (if name i \<in> set (map name ss) then [] else [name i])"
  by (induction ss) auto

lemma names_foldl_add:
  "\<exists>new. map name (foldl add_ingredient ss is) = map name ss @ new
      \<and> set new = set (map name is) - set (map name ss) \<and> distinct new"
proof (induction "is" arbitrary: ss)
  case Nil
  show ?case by simp
next
  case (Cons i rest)
  from Cons.IH [of "add_ingredient ss i"] obtain new where
    n: "map name (foldl add_ingredient (add_ingredient ss i) rest) = map name (add_ingredient ss i) @ new"
       "set new = set (map name rest) - set (map name (add_ingredient ss i))" "distinct new"
    by blast
  let ?h = "if name i \<in> set (map name ss) then [] else [name i]"
  have "map name (foldl add_ingredient ss (i # rest)) = map name ss @ (?h @ new)"
    using n(1) by (simp add: names_add_ingredient)
  moreover have "set (?h @ new) = set (map name (i # rest)) - set (map name ss)"
    using n(2) by (auto simp: names_add_ingredient)
  moreover have "distinct (?h @ new)"
    using n(2,3) by (auto simp: names_add_ingredient)
  ultimately show ?case by blast
qed


lemma findStation_cases:
  "(findStation st n = None \<and> (\<forall>x\<in>set (list_items st). getName st x \<noteq> n)) \<or>
   (\<exists>pre p post. findStation st n = Some p \<and> list_items st = pre @ p # post \<and>
        (\<forall>x\<in>set pre. getName st x \<noteq> n) \<and> getName st p = n)"
proof (cases "findStation st n")
  case None
  then show ?thesis by (simp add: findStation_def findStation_from_None)
next
  case (Some p)
  then show ?thesis unfolding findStation_def by (blast dest: findStation_from_SomeD)
qed

lemma findStation_split:
  "list_items st = pre @ p # post \<Longrightarrow> \<forall>x\<in>set pre. getName st x \<noteq> n \<Longrightarrow> getName st p = n \<Longrightarrow>
   findStation st n = Some p"
  by (simp add: findStation_def findStation_from_split)

lemma findStation_None_iff: "findStation st n = None \<longleftrightarrow> n \<notin> set (registered_names st)"
  by (auto simp: findStation_def findStation_from_None registered_names_def)

lemma getStationIndex_from_shift:
  "n \<in> getName st ` set ps \<Longrightarrow>
   getStationIndex_from st ps n k = k + getStationIndex_from st ps n 0
     \<and> 0 \<le> getStationIndex_from st ps n 0 \<and> getStationIndex_from st ps n 0 < int (length ps)"
proof (induction ps arbitrary: k)
  case Nil
  then show ?case by simp
next
  case (Cons p ps)
  show ?case
  proof (cases "getName st p = n")
    case True
    then show ?thesis by simp
  next
    case False
    with Cons.prems have "n \<in> getName st ` set ps" by auto
    from Cons.IH [OF this, of "k + 1"] Cons.IH [OF this, of 1] False
    show ?thesis by simp
  qed
qed

lemma getStationIndex_from_append:
  "getStationIndex_from st (xs @ ys) n k =
     (if n \<in> getName st ` set xs then getStationIndex_from st xs n k
      else getStationIndex_from st ys n (k + int (length xs)))"
  by (induction xs arbitrary: k) (auto simp: algebra_simps)

lemma merged_index:
  assumes b: "\<forall>x\<in>set pre. getName st x \<noteq> b" "getName st pb = b"
    and a: "a \<noteq> b" "a \<in> getName st ` set (pre @ pb # post)"
  shows "getStationIndex_from st (pre @ post) a 0 =
     (if getStationIndex_from st (pre @ pb # post) b 0 < getStationIndex_from st (pre @ pb # post) a 0
      then getStationIndex_from st (pre @ pb # post) a 0 - 1
      else getStationIndex_from st (pre @ pb # post) a 0)"
proof -
  have ib: "getStationIndex_from st (pre @ pb # post) b 0 = int (length pre)"
    using b by (simp add: getStationIndex_from_split)
  show ?thesis
  proof (cases "a \<in> getName st ` set pre")
    case True
    from getStationIndex_from_shift [OF True, of 0]
    have "getStationIndex_from st pre a 0 < int (length pre)" by simp
    with True ib show ?thesis
      by (simp add: getStationIndex_from_append)
  next
    case False
    with a b have p: "a \<in> getName st ` set post" by auto
    from getStationIndex_from_shift [OF p, of "int (length pre)"]
      getStationIndex_from_shift [OF p, of "int (length pre) + 1"]
    show ?thesis
      using False a(1) b(2) ib by (simp add: getStationIndex_from_append)
  qed
qed

lemma findStation_from_names:
  "(\<And>x. getName st' x = getName st x) \<Longrightarrow> findStation_from st' ps n = findStation_from st ps n"
  by (induction ps) simp_all

lemma getStationIndex_from_names:
  "(\<And>x. getName st' x = getName st x) \<Longrightarrow>
   getStationIndex_from st' ps n k = getStationIndex_from st ps n k"
  by (induction ps arbitrary: k) simp_all

lemma findStation_from_drop_other:
  "a \<noteq> getName st pb \<Longrightarrow>
   findStation_from st (pre @ post) a = findStation_from st (pre @ pb # post) a"
  by (induction pre) auto

lemma mergeStations_facts:
  assumes fa: "findStation st a = Some pa" and fb: "findStation st b = Some pb"
    and st': "st' = snd (mergeStations st a b)"
  shows "fst (mergeStations st a b)"
    and "station_mem st' pa = merged_station (station_mem st pa) (station_mem st pb)"
    and "\<exists>pre post. list_items st = pre @ pb # post \<and> (\<forall>x\<in>set pre. getName st x \<noteq> b) \<and>
             list_items st' = pre @ post"
    and "a \<noteq> b \<Longrightarrow> findStation st' a = Some pa"
    and "a \<noteq> b \<Longrightarrow> getStationIndex st' a =
           (if getStationIndex st b < getStationIndex st a then getStationIndex st a - 1
            else getStationIndex st a)"
    and "distinct (registered_names st) \<Longrightarrow> b \<notin> set (registered_names st')"
proof -
  from fb obtain pre post where
    sp: "list_items st = pre @ pb # post" "\<forall>x\<in>set pre. getName st x \<noteq> b" "getName st pb = b"
    using findStation_cases [of st b] by auto
  let ?m = "merged_station (station_mem st pa) (station_mem st pb)"
  have m: "mergeStations st a b =
      (True, st\<lparr>station_mem := (station_mem st)(pa := ?m), list_items := pre @ post\<rparr>)"
    using fa sp by (rule mergeStations_split)
  then have items: "list_items st' = pre @ post"
    and names: "\<And>x. getName st' x = getName st x"
    by (simp_all add: st' getName_def)
  show "fst (mergeStations st a b)"
    by (simp add: m)
  show "station_mem st' pa = ?m"
    by (simp add: m st')
  show "\<exists>pre post. list_items st = pre @ pb # post \<and> (\<forall>x\<in>set pre. getName st x \<noteq> b) \<and>
             list_items st' = pre @ post"
    using sp items by blast
  show "findStation st' a = Some pa" if ab: "a \<noteq> b"
  proof -
    have "findStation st' a = findStation_from st (pre @ post) a"
      using findStation_from_names [of st' st, OF names] by (simp add: findStation_def items)
    also have "\<dots> = findStation_from st (pre @ pb # post) a"
      using ab sp(3) by (intro findStation_from_drop_other) simp
    also have "\<dots> = Some pa"
      using fa sp(1) by (simp add: findStation_def)
    finally show ?thesis .
  qed
  show "getStationIndex st' a =
           (if getStationIndex st b < getStationIndex st a then getStationIndex st a - 1
            else getStationIndex st a)" if ab: "a \<noteq> b"
  proof -
    have "a \<in> set (registered_names st)"
      using fa findStation_None_iff [of st a] by auto
    then have ina: "a \<in> getName st ` set (pre @ pb # post)"
      by (auto simp: registered_names_def sp(1))
    have "getStationIndex st' a = getStationIndex_from st (pre @ post) a 0"
      using getStationIndex_from_names [of st' st, OF names] by (simp add: getStationIndex_def items)
    with merged_index [OF sp(2,3) ab ina] show ?thesis
      by (simp add: getStationIndex_def sp(1))
  qed
  show "b \<notin> set (registered_names st')" if d: "distinct (registered_names st)"
  proof -
    have "registered_names st' = map (getName st) (pre @ post)"
      using names by (simp add: registered_names_def items)
    moreover have "distinct (map (getName st) pre @ b # map (getName st) post)"
      using d sp by (simp add: registered_names_def)
    ultimately show ?thesis by auto
  qed
qed

section \<open>Merging two stations\<close>

text \<open>
  Claim C6, as amended. \<^verbatim>\<open>mergeStations(A, B)\<close> fails, changing nothing, if either name
  is absent. When both are found, as the station objects \<open>pa\<close> and \<open>pb\<close>, it returns true
  and afterwards: the dishes of \<open>pa\<close> are, as a multiset, its dishes before together with
  those of \<open>pb\<close>, duplicates kept; for each ingredient name the stock of \<open>pa\<close> holds the sum
  of what \<open>pa\<close> and \<open>pb\<close> held; the records of \<open>pa\<close> keep their places and one record is
  appended for each name that only \<open>pb\<close> had; the first entry named B is taken out of the
  registry and every other entry keeps its place relative to the others. For different
  names A and B the station \<open>pa\<close> is still the one found under A, and its index is what
  it was when A came before B and one less when B came before A. Where the registered
  names are distinct, no entry named B is left.
\<close>

theorem mergeStations_conservation:
  "(findStation st a = None \<or> findStation st b = None \<longrightarrow> mergeStations st a b = (False, st)) \<and>
   (\<forall>pa pb st'. findStation st a = Some pa \<and> findStation st b = Some pb \<and>
        st' = snd (mergeStations st a b) \<longrightarrow>
      fst (mergeStations st a b) \<and>
      mset (dishes (station_mem st' pa))
        = mset (dishes (station_mem st pa)) + mset (dishes (station_mem st pb)) \<and>
      (\<forall>n. total_quantity (ingredients_stock (station_mem st' pa)) n
        = total_quantity (ingredients_stock (station_mem st pa)) n
          + total_quantity (ingredients_stock (station_mem st pb)) n) \<and>
      (\<exists>new. map name (ingredients_stock (station_mem st' pa))
                = map name (ingredients_stock (station_mem st pa)) @ new \<and>
             set new = set (map name (ingredients_stock (station_mem st pb)))
                         - set (map name (ingredients_stock (station_mem st pa))) \<and>
             distinct new) \<and>
      (\<exists>pre post. list_items st = pre @ pb # post \<and> (\<forall>x\<in>set pre. getName st x \<noteq> b) \<and>
             list_items st' = pre @ post) \<and>
      (a \<noteq> b \<longrightarrow> findStation st' a = Some pa \<and>
         getStationIndex st' a =
           (if getStationIndex st b < getStationIndex st a then getStationIndex st a - 1
            else getStationIndex st a)) \<and>
      (distinct (registered_names st) \<longrightarrow> b \<notin> set (registered_names st')))"
proof -
  have absent: "findStation st a = None \<or> findStation st b = None \<longrightarrow> mergeStations st a b = (False, st)"
    using mergeStations_absent by blast
  have found: "fst (mergeStations st a b) \<and>
      mset (dishes (station_mem st' pa))
        = mset (dishes (station_mem st pa)) + mset (dishes (station_mem st pb)) \<and>
      (\<forall>n. total_quantity (ingredients_stock (station_mem st' pa)) n
        = total_quantity (ingredients_stock (station_mem st pa)) n
          + total_quantity (ingredients_stock (station_mem st pb)) n) \<and>
      (\<exists>new. map name (ingredients_stock (station_mem st' pa))
                = map name (ingredients_stock (station_mem st pa)) @ new \<and>
             set new = set (map name (ingredients_stock (station_mem st pb)))
                         - set (map name (ingredients_stock (station_mem st pa))) \<and>
             distinct new) \<and>
      (\<exists>pre post. list_items st = pre @ pb # post \<and> (\<forall>x\<in>set pre. getName st x \<noteq> b) \<and>
             list_items st' = pre @ post) \<and>
      (a \<noteq> b \<longrightarrow> findStation st' a = Some pa \<and>
         getStationIndex st' a =
           (if getStationIndex st b < getStationIndex st a then getStationIndex st a - 1
            else getStationIndex st a)) \<and>
      (distinct (registered_names st) \<longrightarrow> b \<notin> set (registered_names st'))"
    if h: "findStation st a = Some pa" "findStation st b = Some pb" "st' = snd (mergeStations st a b)"
    for pa pb st'
  proof -
    note f = mergeStations_facts [OF h]
    have 1: "mset (dishes (station_mem st' pa))
        = mset (dishes (station_mem st pa)) + mset (dishes (station_mem st pb))"
      by (simp add: f(2) merged_station_def)
    have 2: "\<forall>n. total_quantity (ingredients_stock (station_mem st' pa)) n
        = total_quantity (ingredients_stock (station_mem st pa)) n
          + total_quantity (ingredients_stock (station_mem st pb)) n"
      by (simp add: f(2) merged_station_def total_quantity_foldl_add)
    have 3: "\<exists>new. map name (ingredients_stock (station_mem st' pa))
                = map name (ingredients_stock (station_mem st pa)) @ new \<and>
             set new = set (map name (ingredients_stock (station_mem st pb)))
                         - set (map name (ingredients_stock (station_mem st pa))) \<and>
             distinct new"
      using names_foldl_add [of "ingredients_stock (station_mem st pa)"
          "ingredients_stock (station_mem st pb)"]
      by (simp add: f(2) merged_station_def)
    have 4: "a \<noteq> b \<longrightarrow> findStation st' a = Some pa \<and>
         getStationIndex st' a =
           (if getStationIndex st b < getStationIndex st a then getStationIndex st a - 1
            else getStationIndex st a)"
      using f(4,5) by simp
    have 5: "distinct (registered_names st) \<longrightarrow> b \<notin> set (registered_names st')"
      using f(6) by simp
    show ?thesis
      by (intro conjI) (fact f(1) 1 2 3 f(3) 4 5)+
  qed
  show ?thesis
    apply (rule conjI)
     apply (rule absent)
    apply (intro allI impI)
    apply (elim conjE)
    apply (rule found; assumption)
    done
qed


theorem mergeStations_position_counterexample:
  "fst (mergeStations (kitchen [1, 0, 2] [] []) ''Grill'' ''Oven'') \<and>
   getStationIndex (kitchen [1, 0, 2] [] []) ''Grill'' = 1 \<and>
   getStationIndex (snd (mergeStations (kitchen [1, 0, 2] [] []) ''Grill'' ''Oven'')) ''Grill'' = 0"
proof -
  let ?k = "kitchen [1, 0, 2] [] []"
  have f: "findStation ?k ''Grill'' = Some 0"
    by (simp add: findStation_def)
  have "mergeStations ?k ''Grill'' ''Oven'' =
      (True, ?k\<lparr>station_mem := (station_mem ?k)(0 := merged_station (station_mem ?k 0) (station_mem ?k 1)),
                 list_items := [] @ [0, 2]\<rparr>)"
    using f by (rule mergeStations_split) simp_all
  then show ?thesis
    by (simp add: getStationIndex_def getName_def)
qed

theorem mergeStations_conservation_witness:
  "findStation (kitchen [0, 1, 2] [] []) ''Bar'' = None \<and>
   mergeStations (kitchen [0, 1, 2] [] []) ''Grill'' ''Bar'' = (False, kitchen [0, 1, 2] [] []) \<and>
   findStation (kitchen [0, 1, 2] [] []) ''Grill'' = Some 0 \<and>
   findStation (kitchen [0, 1, 2] [] []) ''Oven'' = Some 1 \<and>
   fst (mergeStations (kitchen [0, 1, 2] [] []) ''Grill'' ''Oven'') \<and>
   mset (dishes (station_mem (snd (mergeStations (kitchen [0, 1, 2] [] []) ''Grill'' ''Oven'')) 0))
     = {#0, 0#} \<and>
   total_quantity (ingredients_stock
       (station_mem (snd (mergeStations (kitchen [0, 1, 2] [] []) ''Grill'' ''Oven'')) 0)) ''Chicken'' = 5 \<and>
   total_quantity (ingredients_stock
       (station_mem (snd (mergeStations (kitchen [0, 1, 2] [] []) ''Grill'' ''Oven'')) 0)) ''Salt'' = 2 \<and>
   findStation (snd (mergeStations (kitchen [0, 1, 2] [] []) ''Grill'' ''Oven'')) ''Grill'' = Some 0 \<and>
   getStationIndex (snd (mergeStations (kitchen [0, 1, 2] [] []) ''Grill'' ''Oven'')) ''Grill'' = 0 \<and>
   ''Oven'' \<notin> set (registered_names (snd (mergeStations (kitchen [0, 1, 2] [] []) ''Grill'' ''Oven'')))"
proof -
  let ?k = "kitchen [0, 1, 2] [] []"
  let ?k' = "snd (mergeStations ?k ''Grill'' ''Oven'')"
  have f: "findStation ?k ''Grill'' = Some 0" "findStation ?k ''Oven'' = Some 1"
    "findStation ?k ''Bar'' = None"
    by (simp_all add: findStation_def)
  have d: "distinct (registered_names ?k)" "''Grill'' \<noteq> ''Oven''"
    by (simp_all add: registered_names_def)
  have i: "getStationIndex ?k ''Grill'' = 0" "getStationIndex ?k ''Oven'' = 1"
    by (simp_all add: getStationIndex_def)
  have 1: "mergeStations ?k ''Grill'' ''Bar'' = (False, ?k)"
    using mergeStations_conservation [of ?k "''Grill''" "''Bar''", THEN conjunct1] f(3) by simp
  note c = mergeStations_conservation [of ?k "''Grill''" "''Oven''", THEN conjunct2,
      THEN spec [where x = 0], THEN spec [where x = 1], THEN spec [where x = ?k'], THEN mp]
  have h: "findStation ?k ''Grill'' = Some 0 \<and> findStation ?k ''Oven'' = Some 1 \<and> ?k' = ?k'"
    using f by simp
  from c [OF h] d i have 2: "fst (mergeStations ?k ''Grill'' ''Oven'')"
    and 3: "mset (dishes (station_mem ?k' 0)) = {#0, 0#}"
    and 4: "total_quantity (ingredients_stock (station_mem ?k' 0)) ''Chicken'' = 5"
      "total_quantity (ingredients_stock (station_mem ?k' 0)) ''Salt'' = 2"
    and 5: "findStation ?k' ''Grill'' = Some 0" "getStationIndex ?k' ''Grill'' = 0"
      "''Oven'' \<notin> set (registered_names ?k')"
    by simp_all
  from f 1 2 3 4 5 show ?thesis by simp
qed

section \<open>Merging a station with itself\<close>

text \<open>
  Claim C10, as amended. When a station named X is registered, \<open>p\<close> being the first of
  that name, \<^verbatim>\<open>mergeStations(X, X)\<close> returns true and takes the entry of \<open>p\<close>, the first
  entry named X, out of the registry: the list is one entry shorter and the other entries
  are as they were. Where the registered names are distinct, no station named X is
  registered afterwards; a second entry of that name stays.
\<close>

theorem mergeStations_self_unregisters:
  "findStation st x = Some p \<longrightarrow>
     fst (mergeStations st x x) \<and>
     (\<exists>pre post. list_items st = pre @ p # post \<and> (\<forall>y\<in>set pre. getName st y \<noteq> x) \<and>
        list_items (snd (mergeStations st x x)) = pre @ post) \<and>
     length (list_items (snd (mergeStations st x x))) + 1 = length (list_items st) \<and>
     (distinct (registered_names st) \<longrightarrow>
        x \<notin> set (registered_names (snd (mergeStations st x x))) \<and>
        findStation (snd (mergeStations st x x)) x = None)"
proof
  assume f: "findStation st x = Some p"
  note m = mergeStations_facts [OF f f refl]
  from m(3) obtain pre post where
    l: "list_items st = pre @ p # post" "\<forall>y\<in>set pre. getName st y \<noteq> x"
       "list_items (snd (mergeStations st x x)) = pre @ post"
    by blast
  then have len: "length (list_items (snd (mergeStations st x x))) + 1 = length (list_items st)"
    by simp
  have "x \<notin> set (registered_names (snd (mergeStations st x x))) \<and>
        findStation (snd (mergeStations st x x)) x = None"
    if "distinct (registered_names st)"
    using m(6) [OF that] by (simp add: findStation_None_iff)
  with m(1) l len show "fst (mergeStations st x x) \<and>
     (\<exists>pre post. list_items st = pre @ p # post \<and> (\<forall>y\<in>set pre. getName st y \<noteq> x) \<and>
        list_items (snd (mergeStations st x x)) = pre @ post) \<and>
     length (list_items (snd (mergeStations st x x))) + 1 = length (list_items st) \<and>
     (distinct (registered_names st) \<longrightarrow>
        x \<notin> set (registered_names (snd (mergeStations st x x))) \<and>
        findStation (snd (mergeStations st x x)) x = None)"
    by blast
qed

theorem mergeStations_self_unregisters_witness:
  "findStation (kitchen [0, 1, 2] [] []) ''Oven'' = Some 1 \<and>
   distinct (registered_names (kitchen [0, 1, 2] [] [])) \<and>
   fst (mergeStations (kitchen [0, 1, 2] [] []) ''Oven'' ''Oven'') \<and>
   length (list_items (snd (mergeStations (kitchen [0, 1, 2] [] []) ''Oven'' ''Oven''))) = 2 \<and>
   findStation (snd (mergeStations (kitchen [0, 1, 2] [] []) ''Oven'' ''Oven'')) ''Oven'' = None"
proof -
  let ?k = "kitchen [0, 1, 2] [] []"
  have f: "findStation ?k ''Oven'' = Some 1"
    by (simp add: findStation_def)
  have d: "distinct (registered_names ?k)"
    by (simp add: registered_names_def)
  from mergeStations_self_unregisters [of ?k "''Oven''" 1, THEN mp, OF f] d
  have "fst (mergeStations ?k ''Oven'' ''Oven'')"
    "length (list_items (snd (mergeStations ?k ''Oven'' ''Oven''))) + 1 = length (list_items ?k)"
    "findStation (snd (mergeStations ?k ''Oven'' ''Oven'')) ''Oven'' = None"
    by simp_all
  with f d show ?thesis by simp
qed


theorem mergeStations_self_duplicate_name_counterexample:
  "findStation (kitchen [1, 0, 3] [] []) ''Grill'' = Some 0 \<and>
   fst (mergeStations (kitchen [1, 0, 3] [] []) ''Grill'' ''Grill'') \<and>
   list_items (snd (mergeStations (kitchen [1, 0, 3] [] []) ''Grill'' ''Grill'')) = [1, 3] \<and>
   findStation (snd (mergeStations (kitchen [1, 0, 3] [] []) ''Grill'' ''Grill'')) ''Grill'' = Some 3"
proof -
  let ?k = "kitchen [Suc 0, 0, 3] [] []"
  have f: "findStation ?k ''Grill'' = Some 0"
    by (simp add: findStation_def)
  have "mergeStations ?k ''Grill'' ''Grill'' =
      (True, ?k\<lparr>station_mem := (station_mem ?k)(0 := merged_station (station_mem ?k 0) (station_mem ?k 0)),
                 list_items := [Suc 0] @ [3]\<rparr>)"
    using f by (rule mergeStations_split) simp_all
  then have "fst (mergeStations ?k ''Grill'' ''Grill'')"
    "list_items (snd (mergeStations ?k ''Grill'' ''Grill'')) = [Suc 0, 3]"
    "findStation (snd (mergeStations ?k ''Grill'' ''Grill'')) ''Grill'' = Some 3"
    by (simp_all add: findStation_def getName_def)
  with f show ?thesis by simp
qed

section \<open>Names in the registry\<close>

lemma registered_names_cong:
  "(\<And>x. getName st' x = getName st x) \<Longrightarrow> list_items st' = list_items st \<Longrightarrow>
   registered_names st' = registered_names st"
  by (simp add: registered_names_def)

lemma addStation_result:
  "addStation st p = (True, st\<lparr>list_items := list_items st @ [p]\<rparr>)"
  by (simp add: addStation_def insert_entry_back)

lemma removeStation_result:
  "(removeStation st n = (False, st) \<and> n \<notin> set (registered_names st)) \<or>
   (\<exists>pre p post. list_items st = pre @ p # post \<and> getName st p = n \<and>
        removeStation st n = (True, st\<lparr>list_items := pre @ post\<rparr>))"
proof (cases "findStation st n")
  case None
  then have "\<forall>x\<in>set (list_items st). getName st x \<noteq> n"
    using findStation_cases [of st n] by auto
  then show ?thesis
    by (auto simp: removeStation_absent registered_names_def)
next
  case (Some p)
  then obtain pre post where "list_items st = pre @ p # post"
    "\<forall>x\<in>set pre. getName st x \<noteq> n" "getName st p = n"
    using findStation_cases [of st n] by auto
  then show ?thesis
    using removeStation_split [of st pre p post n] by blast
qed

lemma removeStation_names:
  "getName (snd (removeStation st n)) x = getName st x"
  using removeStation_result [of st n] by auto

lemma removeStation_distinct:
  "distinct (registered_names st) \<Longrightarrow> distinct (registered_names (snd (removeStation st n)))"
  using removeStation_result [of st n] by (auto simp: registered_names_def)

lemma mergeStations_names:
  "getName (snd (mergeStations st a b)) x = getName st x"
proof (cases "findStation st a = None \<or> findStation st b = None")
  case True
  then show ?thesis by (simp add: mergeStations_absent)
next
  case False
  then obtain pa pb where "findStation st a = Some pa" "findStation st b = Some pb"
    by auto
  then show ?thesis
    by (simp add: mergeStations_found removeStation_names)
qed

lemma mergeStations_distinct:
  assumes "distinct (registered_names st)"
  shows "distinct (registered_names (snd (mergeStations st a b)))"
proof (cases "findStation st a = None \<or> findStation st b = None")
  case True
  with assms show ?thesis by (simp add: mergeStations_absent)
next
  case False
  then obtain pa pb where f: "findStation st a = Some pa" "findStation st b = Some pb"
    by auto
  let ?st2 = "st\<lparr>station_mem := (station_mem st)(pa := merged_station (station_mem st pa) (station_mem st pb))\<rparr>"
  have "registered_names ?st2 = registered_names st"
    by (rule registered_names_cong) simp_all
  with assms have "distinct (registered_names (snd (removeStation ?st2 b)))"
    by (intro removeStation_distinct) simp
  then show ?thesis
    by (simp add: mergeStations_found [OF f])
qed

lemma adds_fresh_distinct:
  "distinct (registered_names st) \<Longrightarrow> adds_fresh st ops \<Longrightarrow>
   distinct (registered_names (run_ops st ops))"
proof (induction ops arbitrary: st)
  case Nil
  then show ?case by (simp add: run_ops_def)
next
  case (Cons operation ops)
  have step: "distinct (registered_names (apply_op st operation))"
  proof (cases operation)
    case (Add p)
    with Cons.prems show ?thesis
      by (simp add: addStation_result registered_names_def)
  next
    case (Remove n)
    with Cons.prems show ?thesis
      by (simp add: removeStation_distinct)
  next
    case (Merge a b)
    with Cons.prems show ?thesis
      by (simp add: mergeStations_distinct)
  qed
  have "adds_fresh (apply_op st operation) ops"
    using Cons.prems(2) by (cases operation) simp_all
  from Cons.IH [OF step this] show ?case
    by (simp add: run_ops_def)
qed

text \<open>
  Claim C3, as amended. Starting from an empty registry, after any sequence of
  \<^verbatim>\<open>addStation\<close>, \<^verbatim>\<open>removeStation\<close> and \<^verbatim>\<open>mergeStations\<close> in which every \<^verbatim>\<open>addStation\<close>
  registers a station whose name is not in the registry at that moment, no two registered
  stations share a name. (\<^verbatim>\<open>addStation\<close> itself appends whatever it is given.)
\<close>

theorem registry_names_distinct:
  "list_items st = [] \<Longrightarrow> adds_fresh st ops \<Longrightarrow> distinct (registered_names (run_ops st ops))"
  by (rule adds_fresh_distinct) (simp_all add: registered_names_def)

theorem registry_names_distinct_witness:
  "list_items (kitchen [] [] []) = [] \<and>
   adds_fresh (kitchen [] [] []) [Add 0, Add 1, Add 2, Merge ''Grill'' ''Oven'', Remove ''Pasta'', Add 1] \<and>
   distinct (registered_names (run_ops (kitchen [] [] [])
      [Add 0, Add 1, Add 2, Merge ''Grill'' ''Oven'', Remove ''Pasta'', Add 1])) \<and>
   list_items (run_ops (kitchen [] [] [])
      [Add 0, Add 1, Add 2, Merge ''Grill'' ''Oven'', Remove ''Pasta'', Add 1]) = [0, 1]"
proof -
  let ?k = "kitchen [] [] []"
  let ?ops = "[Add 0, Add 1, Add 2, Merge ''Grill'' ''Oven'', Remove ''Pasta'', Add 1]"
  define k3 where "k3 = kitchen [0, Suc 0, 2] [] []"
  define m where "m = snd (mergeStations k3 ''Grill'' ''Oven'')"
  define r where "r = snd (removeStation m ''Pasta'')"
  have k3: "list_items k3 = [0, Suc 0, 2]" "getName k3 0 = ''Grill''" "getName k3 (Suc 0) = ''Oven''"
    "getName k3 2 = ''Pasta''"
    by (simp_all add: k3_def)
  have f: "findStation k3 ''Grill'' = Some 0"
    by (simp add: findStation_def k3)
  have "mergeStations k3 ''Grill'' ''Oven'' =
      (True, k3\<lparr>station_mem := (station_mem k3)(0 := merged_station (station_mem k3 0) (station_mem k3 (Suc 0))),
                 list_items := [0] @ [2]\<rparr>)"
    using f k3 by (intro mergeStations_split) simp_all
  then have m: "list_items m = [0, 2]"
    by (simp add: m_def)
  have nm: "getName m = getName k3"
    by (simp add: m_def fun_eq_iff mergeStations_names)
  have "removeStation m ''Pasta'' = (True, m\<lparr>list_items := [0] @ []\<rparr>)"
    using m k3 by (intro removeStation_split) (simp_all add: nm)
  then have r: "r = m\<lparr>list_items := [0]\<rparr>"
    by (simp add: r_def)
  have steps: "apply_op (apply_op (apply_op ?k (Add 0)) (Add 1)) (Add 2) = k3"
    "apply_op k3 (Merge ''Grill'' ''Oven'') = m" "apply_op m (Remove ''Pasta'') = r"
    by (simp_all add: addStation_result k3_def m_def r_def)
  have fresh: "adds_fresh ?k ?ops"
    using steps by (simp add: registered_names_def addStation_result r nm k3)
  have l: "list_items (run_ops ?k ?ops) = [0, 1]"
    using steps by (simp add: run_ops_def addStation_result r)
  have e: "list_items ?k = []" by simp
  from registry_names_distinct [OF e fresh] e fresh l show ?thesis by simp
qed

theorem addStation_duplicate_name_counterexample:
  "list_items (kitchen [] [] []) = [] \<and>
   \<not> distinct (registered_names (run_ops (kitchen [] [] []) [Add 0, Add 3]))"
  by (simp add: run_ops_def addStation_result registered_names_def)

section \<open>Facts about the backup pool\<close>

lemma withdraw_None_iff:
  "withdraw pool n q = None \<longleftrightarrow> n \<notin> set (map name pool) \<or> current_quantity pool n < q"
  by (induction pool) (auto split: option.splits)

lemma withdraw_SomeD:
  "withdraw pool n q = Some (pr, pool') \<Longrightarrow>
   \<exists>pre b post. pool = pre @ b # post \<and> name b = n \<and> (\<forall>x\<in>set pre. name x \<noteq> n) \<and>
      q \<le> quantity b \<and> pr = price b \<and>
      pool' = pre @ (if quantity b = q then [] else [b\<lparr>quantity := quantity b - q\<rparr>]) @ post"
proof (induction pool arbitrary: pool')
  case Nil
  then show ?case by simp
next
  case (Cons c pool)
  show ?case
  proof (cases "name c = n")
    case True
    with Cons.prems have "q \<le> quantity c" "pr = price c"
      "pool' = (if quantity c = q then [] else [c\<lparr>quantity := quantity c - q\<rparr>]) @ pool"
      by (auto split: if_splits)
    with True have "c # pool = [] @ c # pool \<and> name c = n \<and> (\<forall>x\<in>set []. name x \<noteq> n) \<and>
      q \<le> quantity c \<and> pr = price c \<and>
      pool' = [] @ (if quantity c = q then [] else [c\<lparr>quantity := quantity c - q\<rparr>]) @ pool"
      by simp
    then show ?thesis by blast
  next
    case False
    with Cons.prems obtain rest where r: "withdraw pool n q = Some (pr, rest)" "pool' = c # rest"
      by (auto split: option.splits)
    from Cons.IH [OF r(1)] obtain pre b post where
      "pool = pre @ b # post" "name b = n" "\<forall>x\<in>set pre. name x \<noteq> n" "q \<le> quantity b"
      "pr = price b" "rest = pre @ (if quantity b = q then [] else [b\<lparr>quantity := quantity b - q\<rparr>]) @ post"
      by blast
    with False r(2) have "c # pool = (c # pre) @ b # post \<and> name b = n \<and>
      (\<forall>x\<in>set (c # pre). name x \<noteq> n) \<and> q \<le> quantity b \<and> pr = price b \<and>
      pool' = (c # pre) @ (if quantity b = q then [] else [b\<lparr>quantity := quantity b - q\<rparr>]) @ post"
      by simp
    then show ?thesis by blast
  qed
qed

lemma withdraw_total:
  "withdraw pool n q = Some (pr, pool') \<Longrightarrow>
   total_quantity pool' m = total_quantity pool m - (if m = n then q else 0)"
  by (induction pool arbitrary: pool') (auto split: if_splits option.splits)

lemma withdraw_names_subset:
  "withdraw pool n q = Some (pr, pool') \<Longrightarrow> set (map name pool') \<subseteq> set (map name pool)"
proof -
  assume "withdraw pool n q = Some (pr, pool')"
  from withdraw_SomeD [OF this] obtain pre b post where
    "pool = pre @ b # post"
    "pool' = pre @ (if quantity b = q then [] else [b\<lparr>quantity := quantity b - q\<rparr>]) @ post"
    by blast
  then show ?thesis by auto
qed

lemma withdraw_distinct:
  "withdraw pool n q = Some (pr, pool') \<Longrightarrow> distinct (map name pool) \<Longrightarrow> distinct (map name pool')"
proof (induction pool arbitrary: pool')
  case Nil
  then show ?case by simp
next
  case (Cons c pool)
  show ?case
  proof (cases "name c = n")
    case True
    with Cons.prems show ?thesis by (auto split: if_splits)
  next
    case False
    with Cons.prems(1) obtain rest where r: "withdraw pool n q = Some (pr, rest)" "pool' = c # rest"
      by (auto split: option.splits)
    from Cons.IH [OF r(1)] Cons.prems(2) withdraw_names_subset [OF r(1)] r(2)
    show ?thesis by auto
  qed
qed

lemma total_quantity_absent: "n \<notin> set (map name xs) \<Longrightarrow> total_quantity xs n = 0"
  by (induction xs) auto

lemma total_quantity_distinct:
  "distinct (map name xs) \<Longrightarrow> total_quantity xs n = current_quantity xs n"
  by (induction xs) (auto simp: total_quantity_absent)

lemma replenishFromBackup_success:
  "fst (replenishStationIngredientFromBackup st sn n q) \<Longrightarrow>
   \<exists>p pr pool'. 0 < q \<and> findStation st sn = Some p \<and>
      withdraw (backup_ingredients st) n q = Some (pr, pool') \<and>
      replenishStationIngredientFromBackup st sn n q =
        (True, (replenish_at p st \<lparr>name = n, quantity = q, required_quantity = 0, price = pr\<rparr>)
                 \<lparr>backup_ingredients := pool'\<rparr>)"
  by (auto simp: replenishStationIngredientFromBackup_def Let_def split: if_splits option.splits)

lemma replenishFromBackup_failure:
  "\<not> fst (replenishStationIngredientFromBackup st sn n q) \<Longrightarrow>
   replenishStationIngredientFromBackup st sn n q = (False, st)"
  by (auto simp: replenishStationIngredientFromBackup_def Let_def split: if_splits option.splits)

lemma replenishFromBackup_success_iff:
  "fst (replenishStationIngredientFromBackup st sn n q) \<longleftrightarrow>
     0 < q \<and> findStation st sn \<noteq> None \<and> n \<in> set (map name (backup_ingredients st)) \<and>
     q \<le> current_quantity (backup_ingredients st) n"
proof -
  have "fst (replenishStationIngredientFromBackup st sn n q) \<longleftrightarrow>
     0 < q \<and> findStation st sn \<noteq> None \<and> withdraw (backup_ingredients st) n q \<noteq> None"
    by (auto simp: replenishStationIngredientFromBackup_def Let_def split: if_splits option.splits)
  then show ?thesis
    by (auto simp: withdraw_None_iff)
qed

section \<open>Withdrawing from the backup pool\<close>

text \<open>
  Claim C4. \<^verbatim>\<open>replenishStationIngredientFromBackup(station, name, qty)\<close> returns false
  when \<open>qty \<le> 0\<close>, when no record of the pool has the name, and when the pool's record of
  that name (the first one, which is the one the loop stops at) holds less than \<open>qty\<close>.
  Whenever it returns false the whole state is as it was: the pool and every station's
  stock. When it returns true, the pool's first record of that name held at least \<open>qty\<close>;
  afterwards its quantity is less by exactly \<open>qty\<close>, or the record is gone when that
  leaves zero, and the other records are as they were. It returns true exactly when
  \<open>qty\<close> is positive, the station is registered and that record holds enough.
\<close>

theorem replenishFromBackup_all_or_nothing:
  "(q \<le> 0 \<or> n \<notin> set (map name (backup_ingredients st)) \<or>
      current_quantity (backup_ingredients st) n < q \<longrightarrow>
      replenishStationIngredientFromBackup st sn n q = (False, st)) \<and>
   (\<not> fst (replenishStationIngredientFromBackup st sn n q) \<longrightarrow>
      snd (replenishStationIngredientFromBackup st sn n q) = st) \<and>
   (fst (replenishStationIngredientFromBackup st sn n q) \<longrightarrow>
      (\<exists>pre b post. backup_ingredients st = pre @ b # post \<and> name b = n \<and>
         (\<forall>x\<in>set pre. name x \<noteq> n) \<and> 0 < q \<and> q \<le> quantity b \<and>
         backup_ingredients (snd (replenishStationIngredientFromBackup st sn n q))
           = pre @ (if quantity b = q then [] else [b\<lparr>quantity := quantity b - q\<rparr>]) @ post)) \<and>
   (fst (replenishStationIngredientFromBackup st sn n q) \<longleftrightarrow>
      0 < q \<and> findStation st sn \<noteq> None \<and> n \<in> set (map name (backup_ingredients st)) \<and>
      q \<le> current_quantity (backup_ingredients st) n)"
proof (intro conjI impI)
  assume "q \<le> 0 \<or> n \<notin> set (map name (backup_ingredients st)) \<or>
      current_quantity (backup_ingredients st) n < q"
  then have "\<not> fst (replenishStationIngredientFromBackup st sn n q)"
    by (auto simp: replenishFromBackup_success_iff)
  then show "replenishStationIngredientFromBackup st sn n q = (False, st)"
    by (rule replenishFromBackup_failure)
next
  assume "\<not> fst (replenishStationIngredientFromBackup st sn n q)"
  then show "snd (replenishStationIngredientFromBackup st sn n q) = st"
    by (simp add: replenishFromBackup_failure)
next
  assume "fst (replenishStationIngredientFromBackup st sn n q)"
  from replenishFromBackup_success [OF this] obtain p pr pool' where
    s: "0 < q" "withdraw (backup_ingredients st) n q = Some (pr, pool')"
      "backup_ingredients (snd (replenishStationIngredientFromBackup st sn n q)) = pool'"
    by auto
  from withdraw_SomeD [OF s(2)] s(1,3)
  show "\<exists>pre b post. backup_ingredients st = pre @ b # post \<and> name b = n \<and>
         (\<forall>x\<in>set pre. name x \<noteq> n) \<and> 0 < q \<and> q \<le> quantity b \<and>
         backup_ingredients (snd (replenishStationIngredientFromBackup st sn n q))
           = pre @ (if quantity b = q then [] else [b\<lparr>quantity := quantity b - q\<rparr>]) @ post"
    by (simp only:) blast
next
  show "fst (replenishStationIngredientFromBackup st sn n q) \<longleftrightarrow>
      0 < q \<and> findStation st sn \<noteq> None \<and> n \<in> set (map name (backup_ingredients st)) \<and>
      q \<le> current_quantity (backup_ingredients st) n"
    by (rule replenishFromBackup_success_iff)
qed


theorem replenishFromBackup_all_or_nothing_witness:
  "replenishStationIngredientFromBackup
      (kitchen [0, 1, 2] [] [ingredient ''Chicken'' 10 0, ingredient ''Spaghetti'' 5 0])
      ''Grill'' ''Chicken'' 0
     = (False, kitchen [0, 1, 2] [] [ingredient ''Chicken'' 10 0, ingredient ''Spaghetti'' 5 0]) \<and>
   replenishStationIngredientFromBackup
      (kitchen [0, 1, 2] [] [ingredient ''Chicken'' 10 0, ingredient ''Spaghetti'' 5 0])
      ''Grill'' ''Beef'' 1
     = (False, kitchen [0, 1, 2] [] [ingredient ''Chicken'' 10 0, ingredient ''Spaghetti'' 5 0]) \<and>
   replenishStationIngredientFromBackup
      (kitchen [0, 1, 2] [] [ingredient ''Chicken'' 10 0, ingredient ''Spaghetti'' 5 0])
      ''Grill'' ''Chicken'' 11
     = (False, kitchen [0, 1, 2] [] [ingredient ''Chicken'' 10 0, ingredient ''Spaghetti'' 5 0]) \<and>
   fst (replenishStationIngredientFromBackup
      (kitchen [0, 1, 2] [] [ingredient ''Chicken'' 10 0, ingredient ''Spaghetti'' 5 0])
      ''Grill'' ''Chicken'' 4) \<and>
   backup_ingredients (snd (replenishStationIngredientFromBackup
      (kitchen [0, 1, 2] [] [ingredient ''Chicken'' 10 0, ingredient ''Spaghetti'' 5 0])
      ''Grill'' ''Chicken'' 4))
     = [ingredient ''Chicken'' 6 0, ingredient ''Spaghetti'' 5 0] \<and>
   fst (replenishStationIngredientFromBackup
      (kitchen [0, 1, 2] [] [ingredient ''Chicken'' 10 0, ingredient ''Spaghetti'' 5 0])
      ''Pasta'' ''Spaghetti'' 5) \<and>
   backup_ingredients (snd (replenishStationIngredientFromBackup
      (kitchen [0, 1, 2] [] [ingredient ''Chicken'' 10 0, ingredient ''Spaghetti'' 5 0])
      ''Pasta'' ''Spaghetti'' 5))
     = [ingredient ''Chicken'' 10 0]"
proof -
  let ?k = "kitchen [0, Suc 0, 2] [] [ingredient ''Chicken'' 10 0, ingredient ''Spaghetti'' 5 0]"
  have f: "findStation ?k ''Grill'' = Some 0" "findStation ?k ''Pasta'' = Some 2"
    by (simp_all add: findStation_def)
  have 1: "replenishStationIngredientFromBackup ?k ''Grill'' ''Chicken'' 0 = (False, ?k)"
    using replenishFromBackup_all_or_nothing [of 0 "''Chicken''" ?k "''Grill''", THEN conjunct1]
    by simp
  have 2: "replenishStationIngredientFromBackup ?k ''Grill'' ''Beef'' 1 = (False, ?k)"
    using replenishFromBackup_all_or_nothing [of 1 "''Beef''" ?k "''Grill''", THEN conjunct1]
    by simp
  have 3: "replenishStationIngredientFromBackup ?k ''Grill'' ''Chicken'' 11 = (False, ?k)"
    using replenishFromBackup_all_or_nothing [of 11 "''Chicken''" ?k "''Grill''", THEN conjunct1]
    by simp
  have 4: "fst (replenishStationIngredientFromBackup ?k ''Grill'' ''Chicken'' 4)"
    using replenishFromBackup_all_or_nothing [of 4 "''Chicken''" ?k "''Grill''"] f
    by simp
  have 5: "fst (replenishStationIngredientFromBackup ?k ''Pasta'' ''Spaghetti'' 5)"
    using replenishFromBackup_all_or_nothing [of 5 "''Spaghetti''" ?k "''Pasta''"] f
    by simp
  have 6: "backup_ingredients (snd (replenishStationIngredientFromBackup ?k ''Grill'' ''Chicken'' 4))
     = [ingredient ''Chicken'' 6 0, ingredient ''Spaghetti'' 5 0]"
    by (simp add: replenishStationIngredientFromBackup_def f)
  have 7: "backup_ingredients (snd (replenishStationIngredientFromBackup ?k ''Pasta'' ''Spaghetti'' 5))
     = [ingredient ''Chicken'' 10 0]"
    by (simp add: replenishStationIngredientFromBackup_def f)
  from 1 2 3 4 5 6 7 show ?thesis by simp
qed

section \<open>The transfer is zero-sum\<close>

text \<open>
  Claim C5. When \<^verbatim>\<open>replenishStationIngredientFromBackup(station, name, q)\<close> returns true,
  the station is registered, and with \<open>p\<close> the station object found under that name: what
  the pool holds of the ingredient afterwards, plus \<open>q\<close>, is what it held before; what
  the stock of \<open>p\<close> holds of it afterwards is what it held before, plus \<open>q\<close>. Both hold
  for the sum over the records of that name, and for the stock also for the record that
  \<^verbatim>\<open>processAllDishes\<close> reads; where the names in the pool are distinct, the pool's one
  record of that name obeys the same equation.
\<close>

theorem replenishFromBackup_zero_sum:
  "fst (replenishStationIngredientFromBackup st sn n q) \<longrightarrow>
     (\<exists>p. findStation st sn = Some p \<and>
        total_quantity (backup_ingredients (snd (replenishStationIngredientFromBackup st sn n q))) n + q
          = total_quantity (backup_ingredients st) n \<and>
        total_quantity (ingredients_stock
            (station_mem (snd (replenishStationIngredientFromBackup st sn n q)) p)) n
          = total_quantity (ingredients_stock (station_mem st p)) n + q \<and>
        current_quantity (ingredients_stock
            (station_mem (snd (replenishStationIngredientFromBackup st sn n q)) p)) n
          = current_quantity (ingredients_stock (station_mem st p)) n + q \<and>
        (distinct (map name (backup_ingredients st)) \<longrightarrow>
           current_quantity (backup_ingredients (snd (replenishStationIngredientFromBackup st sn n q))) n + q
             = current_quantity (backup_ingredients st) n))"
proof
  assume "fst (replenishStationIngredientFromBackup st sn n q)"
  from replenishFromBackup_success [OF this] obtain p pr pool' where
    s: "findStation st sn = Some p" "withdraw (backup_ingredients st) n q = Some (pr, pool')"
      "replenishStationIngredientFromBackup st sn n q =
        (True, (replenish_at p st \<lparr>name = n, quantity = q, required_quantity = 0, price = pr\<rparr>)
                 \<lparr>backup_ingredients := pool'\<rparr>)"
    by blast
  let ?st' = "snd (replenishStationIngredientFromBackup st sn n q)"
  have pool: "backup_ingredients ?st' = pool'"
    and stock: "ingredients_stock (station_mem ?st' p) =
      add_ingredient (ingredients_stock (station_mem st p))
        \<lparr>name = n, quantity = q, required_quantity = 0, price = pr\<rparr>"
    by (simp_all add: s(3) replenishStationIngredients_def)
  have 1: "total_quantity (backup_ingredients ?st') n + q = total_quantity (backup_ingredients st) n"
    using withdraw_total [OF s(2), of n] by (simp add: pool)
  have 2: "total_quantity (ingredients_stock (station_mem ?st' p)) n
          = total_quantity (ingredients_stock (station_mem st p)) n + q"
    by (simp add: stock total_quantity_add_ingredient)
  have 3: "current_quantity (ingredients_stock (station_mem ?st' p)) n
          = current_quantity (ingredients_stock (station_mem st p)) n + q"
    by (simp add: stock current_quantity_add_ingredient)
  have 4: "distinct (map name (backup_ingredients st)) \<longrightarrow>
           current_quantity (backup_ingredients ?st') n + q = current_quantity (backup_ingredients st) n"
  proof
    assume d: "distinct (map name (backup_ingredients st))"
    with withdraw_distinct [OF s(2)] have "distinct (map name pool')" by simp
    with d 1 show "current_quantity (backup_ingredients ?st') n + q = current_quantity (backup_ingredients st) n"
      by (simp add: pool total_quantity_distinct)
  qed
  from s(1) 1 2 3 4 show "\<exists>p. findStation st sn = Some p \<and>
        total_quantity (backup_ingredients ?st') n + q = total_quantity (backup_ingredients st) n \<and>
        total_quantity (ingredients_stock (station_mem ?st' p)) n
          = total_quantity (ingredients_stock (station_mem st p)) n + q \<and>
        current_quantity (ingredients_stock (station_mem ?st' p)) n
          = current_quantity (ingredients_stock (station_mem st p)) n + q \<and>
        (distinct (map name (backup_ingredients st)) \<longrightarrow>
           current_quantity (backup_ingredients ?st') n + q = current_quantity (backup_ingredients st) n)"
    by (intro exI [of _ p] conjI)
qed

theorem replenishFromBackup_zero_sum_witness:
  "fst (replenishStationIngredientFromBackup
      (kitchen [0, 1, 2] [] [ingredient ''Chicken'' 10 0, ingredient ''Spaghetti'' 5 0])
      ''Oven'' ''Chicken'' 4) \<and>
   findStation (kitchen [0, 1, 2] [] [ingredient ''Chicken'' 10 0, ingredient ''Spaghetti'' 5 0]) ''Oven''
     = Some 1 \<and>
   total_quantity (backup_ingredients (snd (replenishStationIngredientFromBackup
      (kitchen [0, 1, 2] [] [ingredient ''Chicken'' 10 0, ingredient ''Spaghetti'' 5 0])
      ''Oven'' ''Chicken'' 4))) ''Chicken'' = 6 \<and>
   total_quantity (ingredients_stock (station_mem (snd (replenishStationIngredientFromBackup
      (kitchen [0, 1, 2] [] [ingredient ''Chicken'' 10 0, ingredient ''Spaghetti'' 5 0])
      ''Oven'' ''Chicken'' 4)) 1)) ''Chicken'' = 9"
proof -
  let ?k = "kitchen [0, Suc 0, 2] [] [ingredient ''Chicken'' 10 0, ingredient ''Spaghetti'' 5 0]"
  let ?k' = "snd (replenishStationIngredientFromBackup ?k ''Oven'' ''Chicken'' 4)"
  have f: "findStation ?k ''Oven'' = Some (Suc 0)"
    by (simp add: findStation_def)
  have ok: "fst (replenishStationIngredientFromBackup ?k ''Oven'' ''Chicken'' 4)"
    by (simp add: replenishFromBackup_success_iff f)
  from replenishFromBackup_zero_sum [of ?k "''Oven''" "''Chicken''" 4, THEN mp, OF ok] f
  have "total_quantity (backup_ingredients ?k') ''Chicken'' + 4 = total_quantity (backup_ingredients ?k) ''Chicken''"
    "total_quantity (ingredients_stock (station_mem ?k' (Suc 0))) ''Chicken''
       = total_quantity (ingredients_stock (station_mem ?k (Suc 0))) ''Chicken'' + 4"
    by simp_all
  then have "total_quantity (backup_ingredients ?k') ''Chicken'' = 6"
    "total_quantity (ingredients_stock (station_mem ?k' (Suc 0))) ''Chicken'' = 9"
    by simp_all
  with ok f show ?thesis by simp
qed

section \<open>Facts about the replenishment loop\<close>

lemma replenishFromBackup_fields_list [simp]:
  "list_items (snd (replenishStationIngredientFromBackup st sn n q)) = list_items st"
  by (simp add: replenishStationIngredientFromBackup_def Let_def split: option.splits)

lemma withdrawn_append [simp]: "withdrawn n (xs @ ys) = withdrawn n xs + withdrawn n ys"
  by (induction n xs rule: withdrawn.induct) simp_all

lemma new_events_append: "trace st' = trace st @ evs \<Longrightarrow> new_events st st' = evs"
  by (simp add: new_events_def)

lemma dishName_simps [simp]:
  "dishName (emit e st) = dishName st"
  "dishName (st\<lparr>station_mem := h\<rparr>) = dishName st"
  "dishName (st\<lparr>dish_queue := q\<rparr>) = dishName st"
  by (simp_all add: dishName_def fun_eq_iff)

lemma shortfall_emit [simp]: "shortfall (emit e st) p i = shortfall st p i"
  by (simp add: shortfall_def)

lemma replenish_loop_Cons:
  "replenish_loop st p (i # rest) =
     (if 0 < shortfall st p i
      then (let r = replenishStationIngredientFromBackup st (getName st p) (name i) (shortfall st p i);
                st'' = emit (Replenish_call (getName st p) (name i) (shortfall st p i) (fst r)) (snd r)
            in if fst r then replenish_loop st'' p rest else (False, st''))
      else replenish_loop st p rest)"
  by (simp add: shortfall_def Let_def case_prod_beta)

declare replenish_loop.simps(2) [simp del]


lemma replenish_loop_False: "\<not> fst (replenish_loop st p xs) \<Longrightarrow> fst (replenish_loop st p xs) = False"
  by simp


lemma findStation_cong:
  "getName st' = getName st \<Longrightarrow> list_items st' = list_items st \<Longrightarrow>
   findStation st' n = findStation st n"
  using findStation_from_names [of st' st "list_items st" n] by (simp add: findStation_def)

lemma replenishFromBackup_effect:
  "trace (snd (replenishStationIngredientFromBackup st sn n q)) = trace st"
  "getName (snd (replenishStationIngredientFromBackup st sn n q)) = getName st"
  "total_quantity (backup_ingredients (snd (replenishStationIngredientFromBackup st sn n q))) m
     = total_quantity (backup_ingredients st) m
       - (if fst (replenishStationIngredientFromBackup st sn n q) \<and> m = n then q else 0)"
  "total_quantity (ingredients_stock (station_mem (snd (replenishStationIngredientFromBackup st sn n q)) x)) m
     = total_quantity (ingredients_stock (station_mem st x)) m
       + (if fst (replenishStationIngredientFromBackup st sn n q) \<and> findStation st sn = Some x \<and> m = n
          then q else 0)"
proof -
  let ?r = "replenishStationIngredientFromBackup st sn n q"
  show "trace (snd ?r) = trace st"
    by (simp add: replenishStationIngredientFromBackup_def Let_def split: option.splits)
  show "getName (snd ?r) = getName st"
    by (simp add: replenishStationIngredientFromBackup_def Let_def getName_def fun_eq_iff
          replenishStationIngredients_def split: option.splits)
  show "total_quantity (backup_ingredients (snd ?r)) m
     = total_quantity (backup_ingredients st) m - (if fst ?r \<and> m = n then q else 0)"
  proof (cases "fst ?r")
    case True
    from replenishFromBackup_success [OF True] obtain p pr pool' where
      "withdraw (backup_ingredients st) n q = Some (pr, pool')" "backup_ingredients (snd ?r) = pool'"
      by auto
    with True withdraw_total [of "backup_ingredients st" n q pr pool' m] show ?thesis by simp
  next
    case False
    then show ?thesis by (simp add: replenishFromBackup_failure)
  qed
  show "total_quantity (ingredients_stock (station_mem (snd ?r) x)) m
     = total_quantity (ingredients_stock (station_mem st x)) m
       + (if fst ?r \<and> findStation st sn = Some x \<and> m = n then q else 0)"
  proof (cases "fst ?r")
    case True
    from replenishFromBackup_success [OF True] obtain p pr pool' where
      s: "findStation st sn = Some p"
      "?r = (True, (replenish_at p st \<lparr>name = n, quantity = q, required_quantity = 0, price = pr\<rparr>)
                 \<lparr>backup_ingredients := pool'\<rparr>)"
      by blast
    show ?thesis
      by (simp add: s replenishStationIngredients_def total_quantity_add_ingredient)
  next
    case False
    then show ?thesis by (simp add: replenishFromBackup_failure)
  qed
qed

lemma replenish_loop_inv:
  "\<exists>evs. trace (snd (replenish_loop st p ings)) = trace st @ evs \<and>
      filter is_prepare evs = [] \<and>
      getName (snd (replenish_loop st p ings)) = getName st \<and>
      (\<forall>m. total_quantity (backup_ingredients (snd (replenish_loop st p ings))) m + withdrawn m evs
            = total_quantity (backup_ingredients st) m) \<and>
      (\<forall>x m. total_quantity (ingredients_stock (station_mem (snd (replenish_loop st p ings)) x)) m
            = total_quantity (ingredients_stock (station_mem st x)) m
              + (if findStation st (getName st p) = Some x then withdrawn m evs else 0))"
proof (induction ings arbitrary: st)
  case Nil
  show ?case by simp
next
  case (Cons i rest)
  let ?q = "shortfall st p i"
  let ?r = "replenishStationIngredientFromBackup st (getName st p) (name i) ?q"
  let ?e = "Replenish_call (getName st p) (name i) ?q (fst ?r)"
  let ?st'' = "emit ?e (snd ?r)"
  note eff = replenishFromBackup_effect [of st "getName st p" "name i" ?q]
  have names: "getName ?st'' = getName st"
    by (simp add: eff)
  have "findStation ?st'' (getName st p) = findStation st (getName st p)"
    by (rule findStation_cong) (rule names, simp)
  then have find: "findStation ?st'' (getName ?st'' p) = findStation st (getName st p)"
    by (simp only: names)
  show ?case
  proof (cases "0 < ?q")
    case False
    with Cons.IH [of st] show ?thesis
      by (simp add: replenish_loop_Cons)
  next
    case pos: True
    show ?thesis
    proof (cases "fst ?r")
      case False
      then have l: "replenish_loop st p (i # rest) = (False, ?st'')"
        using pos by (simp add: replenish_loop_Cons Let_def)
      have 1: "trace ?st'' = trace st @ [?e]"
        by (simp add: eff(1))
      have 2: "filter is_prepare [?e] = []"
        by simp
      have 3: "\<forall>m. total_quantity (backup_ingredients ?st'') m + withdrawn m [?e]
            = total_quantity (backup_ingredients st) m"
        using False by (simp add: eff(3))
      have 4: "\<forall>x m. total_quantity (ingredients_stock (station_mem ?st'' x)) m
            = total_quantity (ingredients_stock (station_mem st x)) m
              + (if findStation st (getName st p) = Some x then withdrawn m [?e] else 0)"
        using False by (simp add: eff(4))
      show ?thesis
        unfolding l snd_conv
        by (rule exI [of _ "[?e]"]) (intro conjI 1 2 names 3 4)
    next
      case True
      then have l: "replenish_loop st p (i # rest) = replenish_loop ?st'' p rest"
        using pos by (simp add: replenish_loop_Cons Let_def)
      let ?L = "snd (replenish_loop ?st'' p rest)"
      from Cons.IH [of ?st''] obtain evs where
        ih: "trace ?L = trace ?st'' @ evs"
          "filter is_prepare evs = []"
          "getName ?L = getName ?st''"
          "\<forall>m. total_quantity (backup_ingredients ?L) m + withdrawn m evs
            = total_quantity (backup_ingredients ?st'') m"
          "\<forall>x m. total_quantity (ingredients_stock (station_mem ?L x)) m
            = total_quantity (ingredients_stock (station_mem ?st'' x)) m
              + (if findStation ?st'' (getName ?st'' p) = Some x then withdrawn m evs else 0)"
        by blast
      have 1: "trace ?L = trace st @ (?e # evs)"
        by (simp add: ih(1) eff(1))
      have 2: "filter is_prepare (?e # evs) = []"
        by (simp add: ih(2))
      have 3: "getName ?L = getName st"
        by (simp only: ih(3) names)
      have 4: "\<forall>m. total_quantity (backup_ingredients ?L) m + withdrawn m (?e # evs)
            = total_quantity (backup_ingredients st) m"
      proof
        fix m
        have "total_quantity (backup_ingredients ?L) m + withdrawn m evs
            = total_quantity (backup_ingredients ?st'') m"
          using ih(4) by (rule spec)
        also have "\<dots> = total_quantity (backup_ingredients st) m - (if m = name i then ?q else 0)"
          using True by (simp add: eff(3))
        finally show "total_quantity (backup_ingredients ?L) m + withdrawn m (?e # evs)
            = total_quantity (backup_ingredients st) m"
          using True by auto
      qed
      have 5: "\<forall>x m. total_quantity (ingredients_stock (station_mem ?L x)) m
            = total_quantity (ingredients_stock (station_mem st x)) m
              + (if findStation st (getName st p) = Some x then withdrawn m (?e # evs) else 0)"
      proof (intro allI)
        fix x m
        have "total_quantity (ingredients_stock (station_mem ?L x)) m
            = total_quantity (ingredients_stock (station_mem ?st'' x)) m
              + (if findStation ?st'' (getName ?st'' p) = Some x then withdrawn m evs else 0)"
          using ih(5) by blast
        also have "\<dots> = total_quantity (ingredients_stock (station_mem ?st'' x)) m
              + (if findStation st (getName st p) = Some x then withdrawn m evs else 0)"
          by (simp only: find)
        also have "total_quantity (ingredients_stock (station_mem ?st'' x)) m
            = total_quantity (ingredients_stock (station_mem st x)) m
              + (if findStation st (getName st p) = Some x \<and> m = name i then ?q else 0)"
          using True by (simp add: eff(4))
        finally show "total_quantity (ingredients_stock (station_mem ?L x)) m
            = total_quantity (ingredients_stock (station_mem st x)) m
              + (if findStation st (getName st p) = Some x then withdrawn m (?e # evs) else 0)"
          using True by auto
      qed
      show ?thesis
        unfolding l
        by (rule exI [of _ "?e # evs"]) (intro conjI 1 2 3 4 5)
    qed
  qed
qed

section \<open>Facts about one turn at a station\<close>

lemma dish_assigned_emit [simp]: "dish_assigned (emit e st) ds dn = dish_assigned st ds dn"
  by (induction ds) simp_all

lemma findStation_emit [simp]: "findStation (emit e st) n = findStation st n"
  by (rule findStation_cong) simp_all

lemma replenish_start_fields [simp]:
  "list_items (replenish_start st p d) = list_items st"
  "dish_queue (replenish_start st p d) = dish_queue st"
  "backup_ingredients (replenish_start st p d) = backup_ingredients st"
  "station_mem (replenish_start st p d) = station_mem st"
  "dish_mem (replenish_start st p d) = dish_mem st"
  "getName (replenish_start st p d) = getName st"
  "dishName (replenish_start st p d) = dishName st"
  "findStation (replenish_start st p d) n = findStation st n"
  "trace (replenish_start st p d) = trace st @
     [Print (getName st p @ '' attempting to prepare '' @ dishName st d @ ''...''),
      CanCompleteOrder_call p (dishName st d) False,
      Print (getName st p @ '': Insufficient ingredients. Replenishing ingredients...'')]"
  by (simp_all add: replenish_start_def)

lemma station_step_unassigned:
  "\<not> dish_assigned st (dishes (station_mem st p)) (dishName st d) \<Longrightarrow>
   station_step m st p d =
     (False, emit (Print (getName st p @ '': Dish not available. Moving to next station...''))
        (emit (Print (getName st p @ '' attempting to prepare '' @ dishName st d @ ''...'')) st))"
  by (simp add: station_step_def Let_def)

lemma station_step_can:
  "dish_assigned st (dishes (station_mem st p)) (dishName st d) \<Longrightarrow>
   canCompleteOrder m (dish_mem st) (station_mem st p) (dishName st d) \<Longrightarrow>
   station_step m st p d =
     (let st2 = snd (call_prepareDish m
              (emit (CanCompleteOrder_call p (dishName st d) True)
                (emit (Print (getName st p @ '' attempting to prepare '' @ dishName st d @ ''...'')) st))
              p (dishName st d))
      in if fst (prepareDish m (dish_mem st) (station_mem st p) (dishName st d))
         then (True, emit (Print (getName st2 p @ '': Successfully prepared '' @ dishName st d @ ''.'')) st2)
         else (False, st2))"
  by (simp add: station_step_def Let_def call_canCompleteOrder_def call_prepareDish_def
        case_prod_beta bool.case_eq_if)

lemma station_step_cannot:
  "dish_assigned st (dishes (station_mem st p)) (dishName st d) \<Longrightarrow>
   \<not> canCompleteOrder m (dish_mem st) (station_mem st p) (dishName st d) \<Longrightarrow>
   station_step m st p d =
     (let l = replenish_loop (replenish_start st p d) p (dish_ingredients (dish_mem st d));
          st3 = snd l
      in if fst l
         then (let c = call_prepareDish m (emit (Print (getName st3 p @ '': Ingredients replenished.'')) st3)
                         p (dishName st d);
                   st5 = snd c
               in if fst c
                  then (True, emit (Print (getName st5 p @ '': Successfully prepared '' @ dishName st d @ ''.'')) st5)
                  else (False, emit (Print (getName st5 p @ '': Unable to prepare '' @ dishName st d @ ''.'')) st5))
         else (False, emit (Print (getName st3 p
                  @ '': Unable to replenish ingredients. Failed to prepare '' @ dishName st d @ ''.'')) st3))"
  by (simp add: station_step_def Let_def call_canCompleteOrder_def replenish_start_def
        case_prod_beta bool.case_eq_if)

lemma call_prepareDish_trace:
  "trace (snd (call_prepareDish m st p dn)) = trace st @ [PrepareDish_call p dn (fst (call_prepareDish m st p dn))]"
  "fst (call_prepareDish m st p dn) = fst (prepareDish m (dish_mem st) (station_mem st p) dn)"
  by (simp_all add: call_prepareDish_def case_prod_beta)





section \<open>One turn at a station\<close>



lemmas step_defs =
  station_step_def call_canCompleteOrder_def call_prepareDish_def
  replenishStationIngredientFromBackup_def findStation_def spec_methods_def
  spec_canCompleteOrder_def spec_prepareDish_def replenishStationIngredients_def
  Let_def dishName_def getName_def replenish_loop_Cons shortfall_def replenish_start_def
  failing_methods_def refusing_methods_def new_events_def



section \<open>An aborted replenishment is not undone\<close>

lemma withdrawn_Print [simp]:
  "withdrawn n (Print s # es) = withdrawn n es"
  "withdrawn n (CanCompleteOrder_call p dn ok # es) = withdrawn n es"
  "withdrawn n (PrepareDish_call p dn ok # es) = withdrawn n es"
  by simp_all

text \<open>
  Claim C9. When the replenishment for a dish at the station \<open>p\<close> aborts, the turn ends
  without preparing the dish and without a call of \<^verbatim>\<open>prepareDish\<close>, and the walk goes on to
  the next station in the state the aborted replenishment left: for every ingredient, the
  pool holds less than before the turn by exactly what the successful withdrawals of this
  turn took, and the station registered under the name of \<open>p\<close> holds exactly that much
  more. Nothing is given back.
\<close>

theorem replenishment_not_rolled_back:
  "dish_assigned st (dishes (station_mem st p)) (dishName st d) \<and>
   \<not> canCompleteOrder m (dish_mem st) (station_mem st p) (dishName st d) \<and>
   \<not> fst (replenish_loop (replenish_start st p d) p (dish_ingredients (dish_mem st d))) \<longrightarrow>
     \<not> fst (station_step m st p d) \<and>
     filter is_prepare (new_events st (snd (station_step m st p d))) = [] \<and>
     (\<forall>n. total_quantity (backup_ingredients (snd (station_step m st p d))) n
            + withdrawn n (new_events st (snd (station_step m st p d)))
          = total_quantity (backup_ingredients st) n) \<and>
     (\<forall>x n. total_quantity (ingredients_stock (station_mem (snd (station_step m st p d)) x)) n
          = total_quantity (ingredients_stock (station_mem st x)) n
            + (if findStation st (getName st p) = Some x
               then withdrawn n (new_events st (snd (station_step m st p d))) else 0)) \<and>
     station_walk m st (p # ps) d = station_walk m (snd (station_step m st p d)) ps d"
proof (intro impI, elim conjE)
  let ?S = "replenish_start st p d"
  let ?l = "replenish_loop ?S p (dish_ingredients (dish_mem st d))"
  assume a: "dish_assigned st (dishes (station_mem st p)) (dishName st d)"
    and c: "\<not> canCompleteOrder m (dish_mem st) (station_mem st p) (dishName st d)"
    and f: "\<not> fst ?l"
  let ?msg = "Print (getName (snd ?l) p
      @ '': Unable to replenish ingredients. Failed to prepare '' @ dishName st d @ ''.'')"
  have step: "station_step m st p d = (False, emit ?msg (snd ?l))"
    using f by (simp add: station_step_cannot [OF a c] Let_def)
  from replenish_loop_inv [of ?S p "dish_ingredients (dish_mem st d)"]
  obtain evs where e: "trace (snd ?l) = trace ?S @ evs" "filter is_prepare evs = []"
    and pool: "\<forall>n. total_quantity (backup_ingredients (snd ?l)) n + withdrawn n evs
            = total_quantity (backup_ingredients ?S) n"
    and stock: "\<forall>x n. total_quantity (ingredients_stock (station_mem (snd ?l) x)) n
            = total_quantity (ingredients_stock (station_mem ?S x)) n
              + (if findStation ?S (getName ?S p) = Some x then withdrawn n evs else 0)"
    by blast
  have ev: "new_events st (snd (station_step m st p d)) =
      [Print (getName st p @ '' attempting to prepare '' @ dishName st d @ ''...''),
       CanCompleteOrder_call p (dishName st d) False,
       Print (getName st p @ '': Insufficient ingredients. Replenishing ingredients...'')] @ evs @ [?msg]"
    by (simp add: step new_events_def e(1))
  have w: "withdrawn n (new_events st (snd (station_step m st p d))) = withdrawn n evs" for n
    by (simp add: ev)
  have 1: "\<not> fst (station_step m st p d)"
    by (simp add: step)
  have 2: "filter is_prepare (new_events st (snd (station_step m st p d))) = []"
    by (simp add: ev e(2))
  have 3: "\<forall>n. total_quantity (backup_ingredients (snd (station_step m st p d))) n
            + withdrawn n (new_events st (snd (station_step m st p d)))
          = total_quantity (backup_ingredients st) n"
    unfolding w using pool by (simp add: step)
  have 4: "\<forall>x n. total_quantity (ingredients_stock (station_mem (snd (station_step m st p d)) x)) n
          = total_quantity (ingredients_stock (station_mem st x)) n
            + (if findStation st (getName st p) = Some x
               then withdrawn n (new_events st (snd (station_step m st p d))) else 0)"
    unfolding w using stock by (simp add: step)
  have 5: "station_walk m st (p # ps) d = station_walk m (snd (station_step m st p d)) ps d"
    by (simp add: step)
  show "\<not> fst (station_step m st p d) \<and>
     filter is_prepare (new_events st (snd (station_step m st p d))) = [] \<and>
     (\<forall>n. total_quantity (backup_ingredients (snd (station_step m st p d))) n
            + withdrawn n (new_events st (snd (station_step m st p d)))
          = total_quantity (backup_ingredients st) n) \<and>
     (\<forall>x n. total_quantity (ingredients_stock (station_mem (snd (station_step m st p d)) x)) n
          = total_quantity (ingredients_stock (station_mem st x)) n
            + (if findStation st (getName st p) = Some x
               then withdrawn n (new_events st (snd (station_step m st p d))) else 0)) \<and>
     station_walk m st (p # ps) d = station_walk m (snd (station_step m st p d)) ps d"
    by (intro conjI 1 2 3 4 5)
qed

theorem replenishment_not_rolled_back_witness:
  "\<not> fst (station_step spec_methods (kitchen [0, 1, 2] [] [ingredient ''Spaghetti'' 5 0]) 2 1) \<and>
   findStation (kitchen [0, 1, 2] [] [ingredient ''Spaghetti'' 5 0]) ''Pasta'' = Some 2 \<and>
   withdrawn ''Spaghetti'' (new_events (kitchen [0, 1, 2] [] [ingredient ''Spaghetti'' 5 0])
       (snd (station_step spec_methods (kitchen [0, 1, 2] [] [ingredient ''Spaghetti'' 5 0]) 2 1))) = 1 \<and>
   total_quantity (backup_ingredients
       (snd (station_step spec_methods (kitchen [0, 1, 2] [] [ingredient ''Spaghetti'' 5 0]) 2 1)))
       ''Spaghetti'' = 4 \<and>
   total_quantity (ingredients_stock (station_mem
       (snd (station_step spec_methods (kitchen [0, 1, 2] [] [ingredient ''Spaghetti'' 5 0]) 2 1)) 2))
       ''Spaghetti'' = 1 \<and>
   backup_ingredients
       (snd (station_step spec_methods (kitchen [0, 1, 2] [] [ingredient ''Spaghetti'' 5 0]) 2 1))
     = [ingredient ''Spaghetti'' 4 0] \<and>
   backup_ingredients
       (processAllDishes spec_methods (kitchen [0, 1, 2] [1] [ingredient ''Spaghetti'' 5 0]))
     = [ingredient ''Spaghetti'' 4 0] \<and>
   dish_queue (processAllDishes spec_methods (kitchen [0, 1, 2] [1] [ingredient ''Spaghetti'' 5 0])) = [1]"
proof -
  let ?k = "kitchen [0, Suc 0, 2] [] [ingredient ''Spaghetti'' 5 0]"
  let ?k' = "snd (station_step spec_methods ?k 2 (Suc 0))"
  have h: "dish_assigned ?k (dishes (station_mem ?k 2)) (dishName ?k (Suc 0)) \<and>
    \<not> canCompleteOrder spec_methods (dish_mem ?k) (station_mem ?k 2) (dishName ?k (Suc 0)) \<and>
    \<not> fst (replenish_loop (replenish_start ?k 2 (Suc 0)) 2 (dish_ingredients (dish_mem ?k (Suc 0))))"
    by (simp add: step_defs)
  have f: "findStation ?k ''Pasta'' = Some 2" "getName ?k 2 = ''Pasta''"
    by (simp_all add: findStation_def)
  have w: "withdrawn ''Spaghetti'' (new_events ?k ?k') = 1"
    by (simp add: step_defs)
  note r = replenishment_not_rolled_back [of ?k 2 "Suc 0" spec_methods "[]", THEN mp, OF h]
  from r have 1: "\<not> fst (station_step spec_methods ?k 2 (Suc 0))"
    by (rule conjunct1)
  from r [THEN conjunct2, THEN conjunct2, THEN conjunct1, THEN spec, of "''Spaghetti''"] w
  have 2: "total_quantity (backup_ingredients ?k') ''Spaghetti'' = 4"
    by simp
  from r [THEN conjunct2, THEN conjunct2, THEN conjunct2, THEN conjunct1, THEN spec, THEN spec,
      of 2 "''Spaghetti''"] w f
  have 3: "total_quantity (ingredients_stock (station_mem ?k' 2)) ''Spaghetti'' = 1"
    by simp
  have 4: "backup_ingredients ?k' = [ingredient ''Spaghetti'' 4 0]"
    by (simp add: step_defs)
  have 5: "backup_ingredients
       (processAllDishes spec_methods (kitchen [0, Suc 0, 2] [Suc 0] [ingredient ''Spaghetti'' 5 0]))
     = [ingredient ''Spaghetti'' 4 0] \<and>
   dish_queue (processAllDishes spec_methods (kitchen [0, Suc 0, 2] [Suc 0] [ingredient ''Spaghetti'' 5 0]))
     = [Suc 0]"
    by (simp add: processAllDishes_def dish_loop.simps process_dish_def step_defs)
  from 1 f(1) w 2 3 4 5 show ?thesis by simp
qed

section \<open>Facts about the pass over the stations\<close>

lemma station_step_prepared: "fst (station_step m st p d) = prepared_by m st p d"
proof (cases "dish_assigned st (dishes (station_mem st p)) (dishName st d)")
  case False
  then show ?thesis
    by (simp add: station_step_unassigned prepared_by_def)
next
  case a: True
  show ?thesis
  proof (cases "canCompleteOrder m (dish_mem st) (station_mem st p) (dishName st d)")
    case True
    with a show ?thesis
      by (simp add: station_step_can Let_def prepared_by_def)
  next
    case False
    with a show ?thesis
      by (simp add: station_step_cannot Let_def prepared_by_def call_prepareDish_trace(2))
  qed
qed

lemma turns_simps [simp]:
  "turns m st [] d = st"
  "turns m st (p # ps) d = turns m (snd (station_step m st p d)) ps d"
  by (simp_all add: turns_def)

lemma prepared_at_simps [simp]:
  "prepared_at m st (p # ps) d 0 = prepared_by m st p d"
  "prepared_at m st (p # ps) d (Suc k) = prepared_at m (snd (station_step m st p d)) ps d k"
  by (simp_all add: prepared_at_def)

lemma first_prepared_Cons:
  "(\<exists>k<Suc n. prepared_at m st (p # ps) d k \<and> (\<forall>j<k. \<not> prepared_at m st (p # ps) d j)) \<longleftrightarrow>
     prepared_by m st p d \<or>
     (\<not> prepared_by m st p d \<and>
      (\<exists>k<n. prepared_at m (snd (station_step m st p d)) ps d k \<and>
         (\<forall>j<k. \<not> prepared_at m (snd (station_step m st p d)) ps d j)))"
  by (auto simp: Ex_less_Suc2 All_less_Suc2)

lemma station_walk_prepared:
  "fst (station_walk m st ps d) \<longleftrightarrow>
     (\<exists>k<length ps. prepared_at m st ps d k \<and> (\<forall>j<k. \<not> prepared_at m st ps d j))"
proof (induction ps arbitrary: st)
  case Nil
  show ?case by simp
next
  case (Cons p ps)
  note c = first_prepared_Cons [of "length ps" m st p ps d]
  show ?case
  proof (cases "prepared_by m st p d")
    case True
    then have l: "fst (station_walk m st (p # ps) d)"
      by (simp add: case_prod_beta bool.case_eq_if station_step_prepared)
    from True c have "\<exists>k<Suc (length ps). prepared_at m st (p # ps) d k \<and>
        (\<forall>j<k. \<not> prepared_at m st (p # ps) d j)"
      by blast
    with l show ?thesis
      by (simp only: length_Cons)
  next
    case False
    then have l: "fst (station_walk m st (p # ps) d)
        = fst (station_walk m (snd (station_step m st p d)) ps d)"
      by (simp add: case_prod_beta bool.case_eq_if station_step_prepared)
    from False c have "(\<exists>k<Suc (length ps). prepared_at m st (p # ps) d k \<and>
        (\<forall>j<k. \<not> prepared_at m st (p # ps) d j)) \<longleftrightarrow>
      (\<exists>k<length ps. prepared_at m (snd (station_step m st p d)) ps d k \<and>
         (\<forall>j<k. \<not> prepared_at m (snd (station_step m st p d)) ps d j))"
      by blast
    with l Cons.IH [of "snd (station_step m st p d)"] show ?thesis
      by (simp only: length_Cons)
  qed
qed

lemma process_dish_prepared: "fst (process_dish m st d) = prepared_in_pass m st d"
proof -
  have "fst (process_dish m st d) = fst (station_walk m (pass_start st d) (list_items st) d)"
    by (simp add: process_dish_def pass_start_def Let_def case_prod_beta bool.case_eq_if)
  then show ?thesis
    by (auto simp: station_walk_prepared prepared_in_pass_def)
qed


section \<open>The queue after processing\<close>

lemma resolved_flags_Cons:
  "resolved_flags m st (dish # q) =
     fst (process_dish m (st\<lparr>dish_queue := q\<rparr>) dish)
       # resolved_flags m (snd (process_dish m (st\<lparr>dish_queue := q\<rparr>) dish)) q"
  by (simp add: process_dish_prepared)

lemma length_resolved_flags [simp]: "length (resolved_flags m st q) = length q"
  by (induction q arbitrary: st) simp_all

lemma unresolved_simps [simp]:
  "unresolved [] [] = []"
  "unresolved (d # q) (True # flags) = unresolved q flags"
  "unresolved (d # q) (False # flags) = d # unresolved q flags"
  by (simp_all add: unresolved_def)

lemma subseq_unresolved: "subseq (unresolved q flags) q"
proof (induction q arbitrary: flags)
  case Nil
  show ?case by (simp add: unresolved_def)
next
  case (Cons d q)
  show ?case
  proof (cases flags)
    case Nil
    then show ?thesis by (simp add: unresolved_def)
  next
    case (Cons ok flags')
    with Cons.IH [of flags'] subseq_drop_many [of "unresolved q flags'" q "[d]"]
    show ?thesis
      by (cases ok) simp_all
  qed
qed

lemma set_unresolved:
  "length flags = length q \<Longrightarrow>
   set (unresolved q flags) = {q ! i | i. i < length q \<and> \<not> flags ! i}"
  by (force simp: unresolved_def set_zip)

lemma dish_loop_unresolved:
  "dish_queue st = q \<Longrightarrow>
   snd (dish_loop m st temp) = temp @ unresolved q (resolved_flags m st q)"
proof (induction q arbitrary: st temp)
  case Nil
  then show ?case
    by (subst dish_loop.simps) simp
next
  case (Cons dish q)
  let ?r = "process_dish m (st\<lparr>dish_queue := q\<rparr>) dish"
  have q: "dish_queue (snd ?r) = q" by simp
  note flags = resolved_flags_Cons [of m st dish q]
  show ?case
  proof (cases "fst ?r")
    case True
    then have "dish_loop m st temp = dish_loop m (snd ?r) temp"
      using Cons.prems by (subst dish_loop.simps) (simp add: case_prod_beta)
    with Cons.IH [OF q, of temp] True show ?thesis
      by (simp only: flags) simp
  next
    case False
    then have "dish_loop m st temp = dish_loop m (snd ?r) (temp @ [dish])"
      using Cons.prems by (subst dish_loop.simps) (simp add: case_prod_beta)
    with Cons.IH [OF q, of "temp @ [dish]"] False show ?thesis
      by (simp only: flags) simp
  qed
qed

lemma dish_loop_fields:
  "dish_queue st = q \<Longrightarrow>
   dish_mem (fst (dish_loop m st temp)) = dish_mem st \<and>
   list_items (fst (dish_loop m st temp)) = list_items st"
proof (induction q arbitrary: st temp)
  case Nil
  then show ?case
    by (subst (1 2) dish_loop.simps) simp
next
  case (Cons dish q)
  let ?r = "process_dish m (st\<lparr>dish_queue := q\<rparr>) dish"
  have q: "dish_queue (snd ?r) = q" by simp
  have "dish_loop m st temp = dish_loop m (snd ?r) (if fst ?r then temp else temp @ [dish])"
    using Cons.prems by (subst dish_loop.simps) (simp add: case_prod_beta)
  with Cons.IH [OF q] show ?case by simp
qed

lemma processAllDishes_dish_queue:
  "dish_queue (processAllDishes m st)
     = unresolved (dish_queue st) (resolved_flags m st (dish_queue st))"
proof -
  have "dish_queue (processAllDishes m st) = snd (dish_loop m st [])"
    by (simp add: processAllDishes_def case_prod_beta)
  then show ?thesis
    by (simp add: dish_loop_unresolved)
qed

text \<open>
  Claim C1, as amended. For every initial queue, \<^verbatim>\<open>processAllDishes\<close> returns, and the
  queue it leaves holds exactly the entries of the initial queue for which no registered
  station prepared the dish in the pass made for that entry: those entries, in the order
  they had, each the pointer that was queued (the dish objects are not touched), and no
  entry for which a registered station's \<^verbatim>\<open>prepareDish\<close> succeeded. A dish whose entry
  was not prepared is in the queue; when no dish object is queued twice, a dish whose
  entry was prepared is not. (A dish object queued twice is two entries, each judged at
  its turn.)
\<close>

theorem processAllDishes_queue:
  "dish_queue (processAllDishes m st)
     = unresolved (dish_queue st) (resolved_flags m st (dish_queue st)) \<and>
   length (resolved_flags m st (dish_queue st)) = length (dish_queue st) \<and>
   subseq (dish_queue (processAllDishes m st)) (dish_queue st) \<and>
   dish_mem (processAllDishes m st) = dish_mem st \<and>
   (\<forall>i<length (dish_queue st). \<not> resolved_flags m st (dish_queue st) ! i \<longrightarrow>
      dish_queue st ! i \<in> set (dish_queue (processAllDishes m st))) \<and>
   (distinct (dish_queue st) \<longrightarrow>
      (\<forall>i<length (dish_queue st). resolved_flags m st (dish_queue st) ! i \<longrightarrow>
         dish_queue st ! i \<notin> set (dish_queue (processAllDishes m st))))"
proof -
  let ?q = "dish_queue st"
  let ?f = "resolved_flags m st ?q"
  note 1 = processAllDishes_dish_queue [of m st]
  have 2: "dish_mem (processAllDishes m st) = dish_mem st"
    using dish_loop_fields [OF refl, of m st "[]"]
    by (simp add: processAllDishes_def case_prod_beta)
  have s: "set (dish_queue (processAllDishes m st)) = {?q ! i | i. i < length ?q \<and> \<not> ?f ! i}"
    by (simp only: 1) (rule set_unresolved, simp)
  have 3: "\<forall>i<length ?q. \<not> ?f ! i \<longrightarrow> ?q ! i \<in> set (dish_queue (processAllDishes m st))"
    unfolding s by blast
  have 4: "distinct ?q \<longrightarrow>
      (\<forall>i<length ?q. ?f ! i \<longrightarrow> ?q ! i \<notin> set (dish_queue (processAllDishes m st)))"
    unfolding s by (auto simp: nth_eq_iff_index_eq)
  have 5: "subseq (dish_queue (processAllDishes m st)) ?q"
    by (simp only: 1 subseq_unresolved)
  have 6: "length ?f = length ?q"
    by simp
  show ?thesis
    by (intro conjI 1 6 5 2 3 4)
qed

lemmas run_defs =
  process_dish_def station_step_def call_canCompleteOrder_def call_prepareDish_def
  replenishStationIngredientFromBackup_def findStation_def spec_methods_def
  spec_canCompleteOrder_def spec_prepareDish_def replenishStationIngredients_def
  Let_def dishName_def getName_def replenish_loop_Cons shortfall_def resolved_flags_Cons

theorem processAllDishes_queue_witness:
  "distinct (dish_queue (kitchen [0, 1] [0, 2, 1] [ingredient ''Chicken'' 10 0])) \<and>
   resolved_flags spec_methods (kitchen [0, 1] [0, 2, 1] [ingredient ''Chicken'' 10 0]) [0, 2, 1]
     = [True, False, False] \<and>
   prepared_in_pass spec_methods (kitchen [0, 1] [2, 1] [ingredient ''Chicken'' 10 0]) 0 \<and>
   prepared_by spec_methods (pass_start (kitchen [0, 1] [2, 1] [ingredient ''Chicken'' 10 0]) 0) 0 0 \<and>
   dish_queue (processAllDishes spec_methods (kitchen [0, 1] [0, 2, 1] [ingredient ''Chicken'' 10 0]))
     = [2, 1] \<and>
   0 \<notin> set (dish_queue (processAllDishes spec_methods
                 (kitchen [0, 1] [0, 2, 1] [ingredient ''Chicken'' 10 0]))) \<and>
   2 \<in> set (dish_queue (processAllDishes spec_methods
                 (kitchen [0, 1] [0, 2, 1] [ingredient ''Chicken'' 10 0])))"
proof -
  let ?k = "kitchen [0, Suc 0] [0, 2, Suc 0] [ingredient ''Chicken'' 10 0]"
  let ?kk = "kitchen [0, Suc 0] [2, Suc 0] [ingredient ''Chicken'' 10 0]"
  have flags: "resolved_flags spec_methods ?k [0, 2, Suc 0] = [True, False, False]"
    by (simp add: run_defs del: resolved_flags.simps(2))
  have q: "dish_queue ?k = [0, 2, Suc 0]"
    by simp
  have d: "distinct (dish_queue ?k)"
    by (simp add: numeral_2_eq_2)
  have p: "prepared_in_pass spec_methods ?kk 0"
    unfolding process_dish_prepared [symmetric] by (simp add: run_defs)
  have b: "prepared_by spec_methods (pass_start ?kk 0) 0 0"
    unfolding station_step_prepared [symmetric] by (simp add: run_defs pass_start_def)
  note t = processAllDishes_queue [of spec_methods ?k]
  have 1: "dish_queue (processAllDishes spec_methods ?k)
      = unresolved (dish_queue ?k) (resolved_flags spec_methods ?k (dish_queue ?k))"
    by (rule t [THEN conjunct1])
  then have 2: "dish_queue (processAllDishes spec_methods ?k) = unresolved [0, 2, Suc 0] [True, False, False]"
    by (simp only: q flags)
  then have 3: "dish_queue (processAllDishes spec_methods ?k) = [2, Suc 0]"
    by simp
  have "\<forall>i<length (dish_queue ?k). resolved_flags spec_methods ?k (dish_queue ?k) ! i \<longrightarrow>
         dish_queue ?k ! i \<notin> set (dish_queue (processAllDishes spec_methods ?k))"
    using t [THEN conjunct2, THEN conjunct2, THEN conjunct2, THEN conjunct2, THEN conjunct2, THEN mp, OF d] .
  then have a: "\<forall>i<length [0, 2, Suc 0]. [True, False, False] ! i \<longrightarrow>
         [0, 2, Suc 0] ! i \<notin> set (dish_queue (processAllDishes spec_methods ?k))"
    unfolding q flags .
  from a [THEN spec, of 0]
  have 4: "0 \<notin> set (dish_queue (processAllDishes spec_methods ?k))"
    by simp
  have "\<forall>i<length (dish_queue ?k). \<not> resolved_flags spec_methods ?k (dish_queue ?k) ! i \<longrightarrow>
      dish_queue ?k ! i \<in> set (dish_queue (processAllDishes spec_methods ?k))"
    by (rule t [THEN conjunct2, THEN conjunct2, THEN conjunct2, THEN conjunct2, THEN conjunct1])
  then have c: "\<forall>i<length [0, 2, Suc 0]. \<not> [True, False, False] ! i \<longrightarrow>
      [0, 2, Suc 0] ! i \<in> set (dish_queue (processAllDishes spec_methods ?k))"
    unfolding q flags .
  from c [THEN spec, of "Suc 0"]
  have 5: "2 \<in> set (dish_queue (processAllDishes spec_methods ?k))"
    by simp
  from d flags p b 3 4 5 show ?thesis
    by (simp del: resolved_flags.simps(2))
qed

theorem processAllDishes_requeued_pointer_counterexample:
  "resolved_flags spec_methods (kitchen [0] [0, 0, 2, 0] [ingredient ''Chicken'' 2 0]) [0, 0, 2, 0]
     = [True, True, False, False] \<and>
   prepared_in_pass spec_methods (kitchen [0] [0, 2, 0] [ingredient ''Chicken'' 2 0]) 0 \<and>
   dish_queue (processAllDishes spec_methods (kitchen [0] [0, 0, 2, 0] [ingredient ''Chicken'' 2 0]))
     = [2, 0] \<and>
   0 \<in> set (dish_queue (processAllDishes spec_methods
                 (kitchen [0] [0, 0, 2, 0] [ingredient ''Chicken'' 2 0])))"
proof -
  let ?k = "kitchen [0] [0, 0, 2, 0] [ingredient ''Chicken'' 2 0]"
  have flags: "resolved_flags spec_methods ?k [0, 0, 2, 0] = [True, True, False, False]"
    by (simp add: run_defs del: resolved_flags.simps(2))
  have p: "prepared_in_pass spec_methods (kitchen [0] [0, 2, 0] [ingredient ''Chicken'' 2 0]) 0"
    unfolding process_dish_prepared [symmetric] by (simp add: run_defs)
  have q: "dish_queue ?k = [0, 0, 2, 0]"
    by simp
  have "dish_queue (processAllDishes spec_methods ?k)
      = unresolved (dish_queue ?k) (resolved_flags spec_methods ?k (dish_queue ?k))"
    by (rule processAllDishes_dish_queue)
  then have "dish_queue (processAllDishes spec_methods ?k) = unresolved [0, 0, 2, 0] [True, True, False, False]"
    by (simp only: q flags)
  then have 3: "dish_queue (processAllDishes spec_methods ?k) = [2, 0]"
    by simp
  from flags p 3 show ?thesis
    by (simp del: resolved_flags.simps(2))
qed

end
